theory Spec2Isabelle
  imports Complex_Main "HOL-Library.Multiset"
begin

section \<open>The disentanglement evaluator of disvae/evaluate.py\<close>

text \<open>
  A shallow embedding of the class \<open>Evaluator\<close> of \<open>src/disvae/evaluate.py\<close>.
  Tensors hold exact reals (the arithmetic of the finite values is exact); the results of
  a division, which may leave the reals, are values of the type \<open>fl\<close> below. Integer
  arrays are lists of naturals. Every draw of a random number generator is an explicit
  argument. An exception of the source is the left summand of the result.
\<close>

datatype error =
    ValueError | IndexError | RuntimeError | NameError | UnboundLocalError | TypeError
  | KeyError
  | External string

subsection \<open>The dense index of a factor combination (\<open>_images_from_data_gen\<close>, lines 352-356)\<close>

text \<open>
  \<open>np.cumprod\<close>: the running products of an array. The cardinalities index an array of
  images held in memory, so the products stay far inside the range where the 64-bit
  integers of \<open>cumprod\<close> and the double-precision \<open>np.dot\<close> are exact; they are modelled
  by naturals.
\<close>

fun cumprod_from :: "nat \<Rightarrow> nat list \<Rightarrow> nat list" where
  "cumprod_from a [] = []"
| "cumprod_from a (x # xs) = (a * x) # cumprod_from (a * x) xs"

definition cumprod :: "nat list \<Rightarrow> nat list" where
  "cumprod xs = cumprod_from 1 xs"

text \<open>
  \<open>latents_bases = np.concatenate((lat_sizes[::-1].cumprod()[::-1][1:], np.array([1,])))\<close>
\<close>

definition latents_bases :: "nat list \<Rightarrow> nat list" where
  "latents_bases lat_sizes = drop 1 (rev (cumprod (rev lat_sizes))) @ [1]"

text \<open>
  \<open>np.dot\<close> of one row of \<open>samples\<close> with \<open>latents_bases\<close>; arrays of different lengths
  raise \<open>ValueError\<close>.
\<close>

definition np_dot :: "nat list \<Rightarrow> nat list \<Rightarrow> error + nat" where
  "np_dot row bases =
     (if length row \<noteq> length bases then Inl ValueError
      else Inr (sum_list (map2 (*) row bases)))"

definition latent_index :: "nat list \<Rightarrow> nat list \<Rightarrow> error + nat" where
  "latent_index lat_sizes row = np_dot row (latents_bases lat_sizes)"

text \<open>
  The tuples of factor values of a dataset: one value below the cardinality for every
  factor.
\<close>

definition factor_tuples :: "nat list \<Rightarrow> nat list set" where
  "factor_tuples lat_sizes = {vs. list_all2 (<) vs lat_sizes}"

text \<open>
  The decoding, from the specification's words (per-factor division and modulo): the value
  of a factor is the index divided by the factor's basis, modulo the factor's cardinality.
\<close>

definition spec_decode :: "nat list \<Rightarrow> nat \<Rightarrow> nat list" where
  "spec_decode lat_sizes idx =
     map2 (\<lambda>b s. (idx div b) mod s) (latents_bases lat_sizes) lat_sizes"

subsection \<open>Floating-point results and tensors\<close>

text \<open>
  The value of a floating-point operation: a finite real (computed exactly), an infinity or
  not-a-number. Division and logarithm follow IEEE 754 at the points where the real
  operation is undefined; the sign of a zero is not modelled (a zero divisor is \<open>+0\<close>).
\<close>

datatype fl = Fin real | PInf | NInf | NaN

fun fl_add :: "fl \<Rightarrow> fl \<Rightarrow> fl" where
  "fl_add (Fin a) (Fin b) = Fin (a + b)"
| "fl_add NaN y = NaN"
| "fl_add x NaN = NaN"
| "fl_add PInf NInf = NaN"
| "fl_add NInf PInf = NaN"
| "fl_add PInf y = PInf"
| "fl_add x PInf = PInf"
| "fl_add NInf y = NInf"
| "fl_add x NInf = NInf"

fun fl_div :: "fl \<Rightarrow> fl \<Rightarrow> fl" where
  "fl_div (Fin a) (Fin b) =
     (if b = 0 then (if a = 0 then NaN else if 0 < a then PInf else NInf) else Fin (a / b))"
| "fl_div NaN y = NaN"
| "fl_div x NaN = NaN"
| "fl_div (Fin a) PInf = Fin 0"
| "fl_div (Fin a) NInf = Fin 0"
| "fl_div PInf (Fin b) = (if 0 \<le> b then PInf else NInf)"
| "fl_div NInf (Fin b) = (if 0 \<le> b then NInf else PInf)"
| "fl_div x y = NaN"

text \<open>\<open>torch.log\<close> of the float of a non-negative integer.\<close>

definition fl_log :: "nat \<Rightarrow> fl" where
  "fl_log n = (if n = 0 then NInf else Fin (ln (real n)))"

definition is_nan :: "fl \<Rightarrow> bool" where
  "is_nan x = (x = NaN)"

text \<open>\<open>Tensor.mean()\<close> of a vector: the sum divided by the number of entries.\<close>

definition fl_sum :: "fl list \<Rightarrow> fl" where
  "fl_sum xs = foldl fl_add (Fin 0) xs"

definition fl_mean :: "fl list \<Rightarrow> fl" where
  "fl_mean xs = fl_div (fl_sum xs) (Fin (real (length xs)))"

text \<open>
  A two-dimensional tensor: its shape and its entries in row-major order, as a contiguous
  tensor stores them.
\<close>

record matrix =
  nrows :: nat
  ncols :: nat
  elems :: "real list"

definition wf_matrix :: "matrix \<Rightarrow> bool" where
  "wf_matrix m = (length (elems m) = nrows m * ncols m)"

definition entry :: "matrix \<Rightarrow> nat \<Rightarrow> nat \<Rightarrow> real" where
  "entry m i j = elems m ! (i * ncols m + j)"

definition row :: "matrix \<Rightarrow> nat \<Rightarrow> real list" where
  "row m i = take (ncols m) (drop (i * ncols m) (elems m))"

definition rows :: "matrix \<Rightarrow> real list list" where
  "rows m = map (row m) [0..<nrows m]"

definition of_rows :: "nat \<Rightarrow> real list list \<Rightarrow> matrix" where
  "of_rows d rs = \<lparr>nrows = length rs, ncols = d, elems = concat rs\<rparr>"

text \<open>\<open>m[:, j]\<close>: the column \<open>j\<close>, an \<open>IndexError\<close> when the tensor has no such column.\<close>

definition col :: "matrix \<Rightarrow> nat \<Rightarrow> error + real list" where
  "col m j =
     (if j < ncols m then Inr (map (\<lambda>i. entry m i j) [0..<nrows m]) else Inl IndexError)"

text \<open>\<open>m[:, j:].sum(dim=1)\<close>: a slice never fails; past the last column it is empty.\<close>

definition sum_cols_from :: "matrix \<Rightarrow> nat \<Rightarrow> real list" where
  "sum_cols_from m j = map (\<lambda>r. sum_list (drop j r)) (rows m)"

text \<open>
  The element-wise operation of two vectors under broadcasting: equal lengths, or one of
  them of length one; anything else is a \<open>RuntimeError\<close>.
\<close>

definition broadcast2 :: "('a \<Rightarrow> 'b \<Rightarrow> 'c) \<Rightarrow> 'a list \<Rightarrow> 'b list \<Rightarrow> error + 'c list" where
  "broadcast2 f xs ys =
     (if length xs = length ys then Inr (map2 f xs ys)
      else if length xs = 1 then Inr (map (f (hd xs)) ys)
      else if length ys = 1 then Inr (map (\<lambda>x. f x (hd ys)) xs)
      else Inl RuntimeError)"

subsection \<open>The score aggregator (\<open>compute_metrics\<close> lines 172-173, \<open>_mutual_information_gap\<close>, \<open>_axis_aligned_metric\<close>)\<close>

text \<open>
  What the dictionary \<open>metric_helpers\<close> stores under a key: the vector of marginal
  entropies, the table of conditional entropies, a per-factor vector or a scalar.
\<close>

datatype helper = Entropies "real list" | Entropy_table matrix | Per_factor "fl list" | Scalar fl

type_synonym storer = "string \<rightharpoonup> helper"

text \<open>
  \<open>mut_info = - H_zCv + H_z\<close>: the vector \<open>H_z\<close> is broadcast over the rows of \<open>H_zCv\<close>;
  \<open>neg_add\<close> is the operation on one entry of each.
\<close>

definition neg_add :: "real \<Rightarrow> real \<Rightarrow> real" where
  "neg_add c h = - c + h"

definition mut_info :: "real list \<Rightarrow> matrix \<Rightarrow> error + matrix" where
  "mut_info H_z H_zCv =
     (if length H_z = ncols H_zCv then
        Inr (of_rows (ncols H_zCv) (map (\<lambda>r. map2 neg_add r H_z) (rows H_zCv)))
      else if length H_z = 1 then
        Inr (of_rows (ncols H_zCv) (map (\<lambda>r. map (\<lambda>c. neg_add c (hd H_z)) r) (rows H_zCv)))
      else if ncols H_zCv = 1 then
        Inr (of_rows (length H_z) (map (\<lambda>r. map (neg_add (hd r)) H_z) (rows H_zCv)))
      else Inl RuntimeError)"

text \<open>
  \<open>torch.sort(mut_info, dim=1, descending=True)[0].clamp(min=0)\<close>: every row sorted
  descending, then every entry clamped at zero.
\<close>

definition sort_descending :: "matrix \<Rightarrow> matrix" where
  "sort_descending m = of_rows (ncols m) (map (\<lambda>r. rev (sort r)) (rows m))"

definition clamp_min :: "real \<Rightarrow> matrix \<Rightarrow> matrix" where
  "clamp_min lo m = m\<lparr>elems := map (\<lambda>x. max x lo) (elems m)\<rparr>"

definition sorted_mut_info :: "real list \<Rightarrow> matrix \<Rightarrow> error + matrix" where
  "sorted_mut_info H_z H_zCv =
     (case mut_info H_z H_zCv of
        Inl e \<Rightarrow> Inl e
      | Inr mi \<Rightarrow> Inr (clamp_min 0 (sort_descending mi)))"

text \<open>
  \<open>_mutual_information_gap(sorted_mut_info, lat_sizes, storer)\<close>: the result and the storer
  after the call (\<open>None\<close> when the caller passed none).
\<close>

definition mutual_information_gap ::
  "matrix \<Rightarrow> nat list \<Rightarrow> storer option \<Rightarrow> error + fl \<times> storer option" where
  "mutual_information_gap sorted_mi lat_sizes storer =
     (case col sorted_mi 0 of Inl e \<Rightarrow> Inl e | Inr c0 \<Rightarrow>
      case col sorted_mi 1 of Inl e \<Rightarrow> Inl e | Inr c1 \<Rightarrow>
      let delta_mut_info = map2 (-) c0 c1;
          H_v = map fl_log lat_sizes
      in case broadcast2 (\<lambda>d h. fl_div (Fin d) h) delta_mut_info H_v of
           Inl e \<Rightarrow> Inl e
         | Inr mig_k \<Rightarrow>
             let mig = fl_mean mig_k
             in Inr (mig,
                  map_option (\<lambda>s. s(''mig_k'' \<mapsto> Per_factor mig_k, ''mig'' \<mapsto> Scalar mig))
                    storer))"

text \<open>\<open>_axis_aligned_metric(sorted_mut_info, storer)\<close>.\<close>

definition axis_aligned_metric ::
  "matrix \<Rightarrow> storer option \<Rightarrow> error + fl \<times> storer option" where
  "axis_aligned_metric sorted_mi storer =
     (case col sorted_mi 0 of Inl e \<Rightarrow> Inl e | Inr c0 \<Rightarrow>
      let numerator = map2 (\<lambda>a b. max (a - b) 0) c0 (sum_cols_from sorted_mi 1);
          aam_k = map2 (\<lambda>n d. fl_div (Fin n) (Fin d)) numerator c0;
          aam_k = map (\<lambda>x. if is_nan x then Fin 0 else x) aam_k;
          aam = fl_mean aam_k
      in Inr (aam,
           map_option (\<lambda>s. s(''aam_k'' \<mapsto> Per_factor aam_k, ''aam'' \<mapsto> Scalar aam))
             storer))"

text \<open>
  The largest and the second-largest entry of a row, and the mutual-information row of a
  factor as the specification words it: marginal minus conditional entropy, clamped at
  zero.
\<close>

definition largest :: "real list \<Rightarrow> real" where
  "largest r = Max (set r)"

definition second_largest :: "real list \<Rightarrow> real" where
  "second_largest r = Max (set (remove1 (Max (set r)) r))"

definition spec_mi_rows :: "real list \<Rightarrow> matrix \<Rightarrow> real list list" where
  "spec_mi_rows H_z H_zCv = map (\<lambda>r. map2 (\<lambda>c h. max (h - c) 0) r H_z) (rows H_zCv)"

text \<open>
  The per-factor ratio of the axis-aligned metric as the specification words it: the largest
  entry minus the sum of the others, clamped at zero and divided by the largest entry, and
  zero where the largest entry is zero. In a row sorted descending the largest entry is the
  first.
\<close>

definition spec_aam_row :: "real list \<Rightarrow> real" where
  "spec_aam_row r = (if hd r = 0 then 0 else max (hd r - sum_list (tl r)) 0 / hd r)"

text \<open>
  The mutual information gap as the specification words it: the mean over the factors of the
  largest minus the second-largest mutual information, divided by the natural logarithm of
  the factor's cardinality.
\<close>

definition spec_mig :: "real list \<Rightarrow> matrix \<Rightarrow> nat list \<Rightarrow> real" where
  "spec_mig H_z H_zCv lat_sizes =
     sum_list (map2 (\<lambda>r n. (largest r - second_largest r) / ln (real n))
       (spec_mi_rows H_z H_zCv) lat_sizes) / real (length lat_sizes)"

subsection \<open>The entropy estimator (\<open>_estimate_latent_entropies\<close>)\<close>

text \<open>
  \<open>torch.logsumexp\<close> over a list of reals, and \<open>math.log\<close> of an integer, which raises
  \<open>ValueError\<close> at zero.
\<close>

definition logsumexp :: "real list \<Rightarrow> real" where
  "logsumexp xs = ln (sum_list (map exp xs))"

definition math_log :: "nat \<Rightarrow> error + real" where
  "math_log n = (if n = 0 then Inl ValueError else Inr (ln (real n)))"

text \<open>
  \<open>m.index_select(0, idx)\<close>: the rows \<open>idx\<close> of \<open>m\<close>, in the order of \<open>idx\<close>.
\<close>

definition index_select :: "matrix \<Rightarrow> nat list \<Rightarrow> error + matrix" where
  "index_select m idx =
     (if \<exists>i \<in> set idx. nrows m \<le> i then Inl IndexError
      else Inr (of_rows (ncols m) (map (row m) idx)))"

text \<open>
  \<open>m.view(r, c)\<close>: the same entries in the same order under another shape; a
  \<open>RuntimeError\<close> when the shape does not hold as many entries as \<open>m\<close>.
\<close>

definition view :: "matrix \<Rightarrow> nat \<Rightarrow> nat \<Rightarrow> error + matrix" where
  "view m r c =
     (if nrows m * ncols m = r * c then Inr \<lparr>nrows = r, ncols = c, elems = elems m\<rparr>
      else Inl RuntimeError)"

text \<open>
  \<open>p.unsqueeze(-1).expand(n, d, s)\<close>: the entry of the expanded tensor at example \<open>i\<close> and
  dimension \<open>j\<close> (the same for every position along the last axis). Only an axis of
  size one is expanded.
\<close>

definition expand :: "matrix \<Rightarrow> nat \<Rightarrow> nat \<Rightarrow> error + (nat \<Rightarrow> nat \<Rightarrow> real)" where
  "expand p n d =
     (if (nrows p = n \<or> nrows p = 1) \<and> (ncols p = d \<or> ncols p = 1)
      then Inr (\<lambda>i j. entry p (if nrows p = n then i else 0) (if ncols p = d then j else 0))
      else Inl RuntimeError)"

text \<open>
  \<open>- log_q_z\<close> at dimension \<open>j\<close> and pivot \<open>s\<close>: \<open>log_N\<close> minus the \<open>logsumexp\<close>, over the
  \<open>len_dataset\<close> posteriors, of the log-density of the pivot. The log-density
  \<open>log_density_gaussian\<close> (of \<open>disvae.utils.math\<close>, outside these sources) is the
  parameter \<open>ld\<close>, applied to one pivot, one mean and one log-variance.
\<close>

definition neg_log_q_z ::
  "(real \<Rightarrow> real \<Rightarrow> real \<Rightarrow> real) \<Rightarrow> nat \<Rightarrow> real \<Rightarrow> (nat \<Rightarrow> nat \<Rightarrow> real) \<Rightarrow> (nat \<Rightarrow> nat \<Rightarrow> real)
     \<Rightarrow> matrix \<Rightarrow> nat \<Rightarrow> nat \<Rightarrow> real" where
  "neg_log_q_z ld len_dataset log_N mean log_var z j s =
     - (- log_N + logsumexp (map (\<lambda>n. ld (entry z j s) (mean n j) (log_var n j)) [0..<len_dataset]))"

text \<open>
  The loop \<open>for k in range(0, n_samples, mini_batch_size)\<close>: every pass adds to \<open>H_z\<close>, for
  every dimension, the sum of \<open>f\<close> over the pivots of the slice \<open>k : k + mini_batch_size\<close>
  (a slice ends at the last pivot).
\<close>

function entropy_loop ::
  "(nat \<Rightarrow> nat \<Rightarrow> real) \<Rightarrow> nat \<Rightarrow> nat \<Rightarrow> nat \<Rightarrow> nat \<Rightarrow> real list \<Rightarrow> real list" where
  "entropy_loop f latent_dim n_samples mini_batch_size k H_z =
     (if mini_batch_size = 0 \<or> n_samples \<le> k then H_z
      else entropy_loop f latent_dim n_samples mini_batch_size (k + mini_batch_size)
             (map2 (+) H_z
                (map (\<lambda>j. sum_list (map (f j) [k..<min (k + mini_batch_size) n_samples]))
                   [0..<latent_dim])))"
  by pat_completeness auto
termination
  by (relation "measure (\<lambda>(f, d, n, b, k, H). n - k)") auto

text \<open>
  \<open>_estimate_latent_entropies(samples_zCx, params_zCX, n_samples)\<close>. The permutation drawn
  by \<open>torch.randperm(len_dataset)\<close> is the argument \<open>perm\<close>; the size of a minibatch, which
  the source fixes at 10, is the argument \<open>mini_batch_size\<close> (\<open>range\<close> raises \<open>ValueError\<close>
  for a zero step).
\<close>

definition estimate_latent_entropies_batched ::
  "(real \<Rightarrow> real \<Rightarrow> real \<Rightarrow> real) \<Rightarrow> nat \<Rightarrow> nat list \<Rightarrow> matrix \<Rightarrow> matrix \<times> matrix \<Rightarrow> nat
     \<Rightarrow> error + fl list" where
  "estimate_latent_entropies_batched ld mini_batch_size perm samples_zCx params_zCX n_samples =
     (let len_dataset = nrows samples_zCx;
          latent_dim = ncols samples_zCx;
          H_z = replicate latent_dim 0;
          samples_x = take n_samples perm
      in case index_select samples_zCx samples_x of Inl e \<Rightarrow> Inl e | Inr selected \<Rightarrow>
         case view selected latent_dim n_samples of Inl e \<Rightarrow> Inl e | Inr z \<Rightarrow>
         case expand (fst params_zCX) len_dataset latent_dim of Inl e \<Rightarrow> Inl e | Inr mean \<Rightarrow>
         case expand (snd params_zCX) len_dataset latent_dim of Inl e \<Rightarrow> Inl e | Inr log_var \<Rightarrow>
         case math_log len_dataset of Inl e \<Rightarrow> Inl e | Inr log_N \<Rightarrow>
         if mini_batch_size = 0 then Inl ValueError
         else
           let H_z = entropy_loop (neg_log_q_z ld len_dataset log_N mean log_var z)
                       latent_dim n_samples mini_batch_size 0 H_z
           in Inr (map (\<lambda>h. fl_div (Fin h) (Fin (real n_samples))) H_z))"

definition estimate_latent_entropies ::
  "(real \<Rightarrow> real \<Rightarrow> real \<Rightarrow> real) \<Rightarrow> nat list \<Rightarrow> matrix \<Rightarrow> matrix \<times> matrix \<Rightarrow> nat
     \<Rightarrow> error + fl list" where
  "estimate_latent_entropies ld = estimate_latent_entropies_batched ld 10"

text \<open>
  The estimate with all pivots processed at once, from the specification's words: for every
  dimension the average over the pivots of \<open>log N\<close> minus the \<open>logsumexp\<close> of the \<open>N\<close>
  posterior log-densities. The pivot of dimension \<open>j\<close> at position \<open>s\<close> is the entry
  \<open>j * n_samples + s\<close> of the selected rows, as \<open>view\<close> leaves them.
\<close>

definition spec_entropy ::
  "(real \<Rightarrow> real \<Rightarrow> real \<Rightarrow> real) \<Rightarrow> nat list \<Rightarrow> matrix \<Rightarrow> matrix \<times> matrix \<Rightarrow> nat \<Rightarrow> nat
     \<Rightarrow> real" where
  "spec_entropy ld perm samples_zCx params_zCX n_samples j =
     sum_list (map (\<lambda>s.
         ln (real (nrows samples_zCx))
         - logsumexp (map (\<lambda>n.
               ld (concat (map (row samples_zCx) (take n_samples perm)) ! (j * n_samples + s))
                  (entry (fst params_zCX) n j) (entry (snd params_zCX) n j))
             [0..<nrows samples_zCx]))
       [0..<n_samples])
     / real n_samples"

text \<open>
  Modelled from the spec: \<open>log_density_gaussian\<close> of \<open>disvae/utils/math.py\<close>, which is not
  among the sources; the closed-form log-density of a Gaussian with the given mean and
  log-variance.
\<close>

definition log_density_gaussian :: "real \<Rightarrow> real \<Rightarrow> real \<Rightarrow> real" where
  "log_density_gaussian x mu logvar =
     - (1 / 2) * (ln (2 * pi) + logvar) - (1 / 2) * ((x - mu)\<^sup>2 * exp (- logvar))"

subsection \<open>The conditional entropies (\<open>compute_metrics\<close> lines 164-166, \<open>_estimate_H_zCv\<close>)\<close>

text \<open>
  A tensor of any number of axes: its shape and its entries in row-major order.
\<close>

record tensor =
  shape :: "nat list"
  entries :: "real list"

text \<open>
  \<open>m.view(*lat_sizes, latent_dim)\<close>: a \<open>RuntimeError\<close> when the shape does not hold as many
  entries as \<open>m\<close>.
\<close>

definition view_as :: "matrix \<Rightarrow> nat list \<Rightarrow> error + tensor" where
  "view_as m sh =
     (if nrows m * ncols m = prod_list sh then Inr \<lparr>shape = sh, entries = elems m\<rparr>
      else Inl RuntimeError)"

text \<open>
  The entries of a row-major tensor of shape \<open>sh\<close> whose index along axis \<open>k\<close> is \<open>i\<close>, in
  row-major order: along the first axis they are one contiguous block; along a later axis
  they are gathered from every block of the first axis.
\<close>

fun slice_axis :: "nat list \<Rightarrow> nat \<Rightarrow> nat \<Rightarrow> 'a list \<Rightarrow> 'a list" where
  "slice_axis [] k i xs = xs"
| "slice_axis (s # sh) 0 i xs = take (prod_list sh) (drop (i * prod_list sh) xs)"
| "slice_axis (s # sh) (Suc k) i xs =
     concat (map (\<lambda>b. slice_axis sh k i (take (prod_list sh) (drop (b * prod_list sh) xs)))
       [0..<s])"

text \<open>
  \<open>t[idcs]\<close> for a list \<open>idcs\<close> of \<open>n_idcs\<close> full slices with the integer \<open>i\<close> at position
  \<open>i_fac_var\<close>: an \<open>IndexError\<close> when the tensor has fewer axes than \<open>idcs\<close> has entries or
  the axis has no index \<open>i\<close>.
\<close>

definition index_factor :: "tensor \<Rightarrow> nat \<Rightarrow> nat \<Rightarrow> nat \<Rightarrow> error + tensor" where
  "index_factor t n_idcs i_fac_var i =
     (if length (shape t) < n_idcs \<or> n_idcs \<le> i_fac_var \<or> shape t ! i_fac_var \<le> i
      then Inl IndexError
      else Inr \<lparr>shape = take i_fac_var (shape t) @ drop (Suc i_fac_var) (shape t),
                entries = slice_axis (shape t) i_fac_var i (entries t)\<rparr>)"

text \<open>\<open>t.contiguous().view(r, c)\<close>.\<close>

definition view_matrix :: "tensor \<Rightarrow> nat \<Rightarrow> nat \<Rightarrow> error + matrix" where
  "view_matrix t r c =
     (if prod_list (shape t) = r * c then Inr \<lparr>nrows = r, ncols = c, elems = entries t\<rparr>
      else Inl RuntimeError)"

text \<open>
  \<open>p[idcs].contiguous().view(len_dataset // lat_size, latent_dim)\<close>, for the samples and for
  each tensor of the posterior statistics.
\<close>

definition factor_slice ::
  "tensor \<Rightarrow> nat \<Rightarrow> nat \<Rightarrow> nat \<Rightarrow> nat \<Rightarrow> nat \<Rightarrow> error + matrix" where
  "factor_slice p n_idcs i_fac_var i r c =
     (case index_factor p n_idcs i_fac_var i of
        Inl e \<Rightarrow> Inl e
      | Inr q \<Rightarrow> view_matrix q r c)"

text \<open>
  One pass of the inner loop, for the value \<open>i\<close> of the factor \<open>i_fac_var\<close>: the estimate on
  the slice. The call leaves \<open>n_samples\<close> at its default of 10000; \<open>perms i_fac_var i\<close> is
  the permutation which \<open>torch.randperm\<close> draws in this call.
\<close>

definition slice_entropies ::
  "(real \<Rightarrow> real \<Rightarrow> real \<Rightarrow> real) \<Rightarrow> (nat \<Rightarrow> nat \<Rightarrow> nat list) \<Rightarrow> tensor \<Rightarrow> tensor \<times> tensor
     \<Rightarrow> nat \<Rightarrow> nat \<Rightarrow> nat \<Rightarrow> nat \<Rightarrow> nat \<Rightarrow> nat \<Rightarrow> error + fl list" where
  "slice_entropies ld perms samples_zCx params_zCx n_idcs len_dataset latent_dim
       i_fac_var lat_size i =
     (case factor_slice samples_zCx n_idcs i_fac_var i (len_dataset div lat_size) latent_dim of
        Inl e \<Rightarrow> Inl e | Inr samples_zxCv \<Rightarrow>
      case factor_slice (fst params_zCx) n_idcs i_fac_var i (len_dataset div lat_size) latent_dim of
        Inl e \<Rightarrow> Inl e | Inr mean_zxCv \<Rightarrow>
      case factor_slice (snd params_zCx) n_idcs i_fac_var i (len_dataset div lat_size) latent_dim of
        Inl e \<Rightarrow> Inl e | Inr log_var_zxCv \<Rightarrow>
        estimate_latent_entropies ld (perms i_fac_var i) samples_zxCv
          (mean_zxCv, log_var_zxCv) 10000)"

text \<open>
  The inner loop \<open>for i in range(lat_size)\<close>: \<open>H_zCv[i_fac_var] += estimate / lat_size\<close>.
\<close>

fun values_loop :: "(nat \<Rightarrow> error + fl list) \<Rightarrow> nat \<Rightarrow> nat list \<Rightarrow> fl list \<Rightarrow> error + fl list" where
  "values_loop est lat_size [] H = Inr H"
| "values_loop est lat_size (i # is) H =
     (case est i of
        Inl e \<Rightarrow> Inl e
      | Inr h \<Rightarrow>
          values_loop est lat_size is
            (map2 fl_add H (map (\<lambda>x. fl_div x (Fin (real lat_size))) h)))"

text \<open>
  The outer loop \<open>for i_fac_var, (lat_size, lat_name) in enumerate(zip(lat_sizes, lat_names))\<close>.
\<close>

fun factors_loop ::
  "(nat \<Rightarrow> nat \<Rightarrow> nat \<Rightarrow> error + fl list) \<Rightarrow> (nat \<times> nat \<times> string) list \<Rightarrow> fl list list
     \<Rightarrow> error + fl list list" where
  "factors_loop est [] H_zCv = Inr H_zCv"
| "factors_loop est ((i_fac_var, lat_size, lat_name) # rest) H_zCv =
     (case values_loop (est i_fac_var lat_size) lat_size [0..<lat_size] (H_zCv ! i_fac_var) of
        Inl e \<Rightarrow> Inl e
      | Inr H \<Rightarrow> factors_loop est rest (H_zCv[i_fac_var := H]))"

text \<open>
  \<open>_estimate_H_zCv(samples_zCx, params_zCx, lat_sizes, lat_names)\<close>: \<open>size(-1)\<close> of a
  tensor without axes is an \<open>IndexError\<close>, \<open>reduce\<close> over no cardinality a \<open>TypeError\<close>.
\<close>

definition estimate_H_zCv ::
  "(real \<Rightarrow> real \<Rightarrow> real \<Rightarrow> real) \<Rightarrow> (nat \<Rightarrow> nat \<Rightarrow> nat list) \<Rightarrow> tensor \<Rightarrow> tensor \<times> tensor
     \<Rightarrow> nat list \<Rightarrow> string list \<Rightarrow> error + fl list list" where
  "estimate_H_zCv ld perms samples_zCx params_zCx lat_sizes lat_names =
     (if shape samples_zCx = [] then Inl IndexError
      else if lat_sizes = [] then Inl TypeError
      else
        let latent_dim = last (shape samples_zCx);
            len_dataset = prod_list lat_sizes;
            H_zCv = replicate (length lat_sizes) (replicate latent_dim (Fin 0))
        in factors_loop
             (slice_entropies ld perms samples_zCx params_zCx (length lat_sizes)
                len_dataset latent_dim)
             (zip [0..<length lat_sizes] (zip lat_sizes lat_names)) H_zCv)"

text \<open>
  The examples whose factor \<open>k\<close> has the value \<open>v\<close>, from the specification's words: the rows
  of the table, in the order of the dataset, whose index decodes to \<open>v\<close> at the factor \<open>k\<close>.
\<close>

definition factor_examples :: "nat list \<Rightarrow> nat \<Rightarrow> nat \<Rightarrow> nat list" where
  "factor_examples lat_sizes k v =
     filter (\<lambda>n. spec_decode lat_sizes n ! k = v) [0..<prod_list lat_sizes]"

definition spec_slice :: "nat list \<Rightarrow> nat \<Rightarrow> nat \<Rightarrow> nat \<Rightarrow> real list \<Rightarrow> matrix" where
  "spec_slice lat_sizes latent_dim k v xs =
     \<lparr>nrows = length (factor_examples lat_sizes k v),
      ncols = latent_dim,
      elems = concat (map (\<lambda>n. take latent_dim (drop (n * latent_dim) xs))
                (factor_examples lat_sizes k v))\<rparr>"

subsection \<open>The paired-sample builder (\<open>_images_from_data_gen\<close>, \<open>_compute_z_b_diff_y\<close>)\<close>

text \<open>
  The random number generator of numpy: \<open>raw n t\<close> is the raw value at position \<open>t\<close> of the
  \<open>n\<close>-th array the generator hands out, and the state of the generator is the number of
  arrays handed out so far. \<open>np.random.randint(high, size=n)\<close> reduces the raw values
  below \<open>high\<close> and raises \<open>ValueError\<close> when \<open>high\<close> is zero.
\<close>

type_synonym rng = nat

definition randint :: "(nat \<Rightarrow> nat \<Rightarrow> nat) \<Rightarrow> nat \<Rightarrow> nat \<Rightarrow> rng \<Rightarrow> error + nat list \<times> rng" where
  "randint raw high n c =
     (if high = 0 then Inl ValueError
      else Inr (map (\<lambda>t. raw c t mod high) [0..<n], Suc c))"

text \<open>
  The loop \<open>for i, lat_size in enumerate(lat_sizes)\<close>, which fills the column \<open>i\<close> of
  \<open>samples1\<close> and of \<open>samples2\<close>: with \<open>y_lat\<close> where \<open>i == y\<close>, with a draw of its own each
  otherwise. The result holds the columns of both tables.
\<close>

fun fill_columns ::
  "(nat \<Rightarrow> nat \<Rightarrow> nat) \<Rightarrow> nat \<Rightarrow> nat list \<Rightarrow> nat \<Rightarrow> (nat \<times> nat) list \<Rightarrow> rng
     \<Rightarrow> error + (nat list list \<times> nat list list) \<times> rng" where
  "fill_columns raw sample_size y_lat y [] c = Inr (([], []), c)"
| "fill_columns raw sample_size y_lat y ((i, lat_size) # rest) c =
     (case (if i = y then Inr (y_lat, c) else randint raw lat_size sample_size c) of
        Inl e \<Rightarrow> Inl e
      | Inr (column1, c1) \<Rightarrow>
     (case (if i = y then Inr (y_lat, c1) else randint raw lat_size sample_size c1) of
        Inl e \<Rightarrow> Inl e
      | Inr (column2, c2) \<Rightarrow>
     (case fill_columns raw sample_size y_lat y rest c2 of
        Inl e \<Rightarrow> Inl e
      | Inr ((samples1, samples2), c3) \<Rightarrow>
          Inr ((column1 # samples1, column2 # samples2), c3))))"

text \<open>The rows of a table given by its columns, each of \<open>sample_size\<close> entries.\<close>

definition rows_of_columns :: "nat \<Rightarrow> nat list list \<Rightarrow> nat list list" where
  "rows_of_columns sample_size columns =
     map (\<lambda>s. map (\<lambda>column. column ! s) columns) [0..<sample_size]"

text \<open>
  \<open>np.dot(samples, latents_bases)\<close> for all rows at once, and the gathering \<open>imgs[indices]\<close>,
  an \<open>IndexError\<close> when an index is not one of the dataset.
\<close>

definition np_dot_rows :: "nat list list \<Rightarrow> nat list \<Rightarrow> error + nat list" where
  "np_dot_rows samples bases =
     (if \<exists>r \<in> set samples. length r \<noteq> length bases then Inl ValueError
      else Inr (map (\<lambda>r. sum_list (map2 (*) r bases)) samples))"

definition gather :: "'img list \<Rightarrow> nat list \<Rightarrow> error + 'img list" where
  "gather imgs indices =
     (if \<exists>i \<in> set indices. length imgs \<le> i then Inl IndexError
      else Inr (map (\<lambda>i. imgs ! i) indices))"

text \<open>
  \<open>_images_from_data_gen(sample_size, lat_sizes, imgs)\<close>: the two sets of images, the
  index \<open>y\<close> of the factor held fixed, and the generator afterwards.
\<close>

definition images_from_data_gen ::
  "(nat \<Rightarrow> nat \<Rightarrow> nat) \<Rightarrow> nat \<Rightarrow> nat list \<Rightarrow> 'img list \<Rightarrow> rng
     \<Rightarrow> error + ('img list \<times> 'img list \<times> nat) \<times> rng" where
  "images_from_data_gen raw sample_size lat_sizes imgs c =
     (case randint raw (length lat_sizes) 1 c of Inl e \<Rightarrow> Inl e | Inr (ys, c1) \<Rightarrow>
      let y = hd ys in
      case randint raw (lat_sizes ! y) sample_size c1 of Inl e \<Rightarrow> Inl e | Inr (y_lat, c2) \<Rightarrow>
      case fill_columns raw sample_size y_lat y (zip [0..<length lat_sizes] lat_sizes) c2 of
        Inl e \<Rightarrow> Inl e | Inr ((samples1, samples2), c3) \<Rightarrow>
      let latents_bases = latents_bases lat_sizes in
      case np_dot_rows (rows_of_columns sample_size samples1) latents_bases of
        Inl e \<Rightarrow> Inl e | Inr latent_indices1 \<Rightarrow>
      case np_dot_rows (rows_of_columns sample_size samples2) latents_bases of
        Inl e \<Rightarrow> Inl e | Inr latent_indices2 \<Rightarrow>
      case gather imgs latent_indices1 of Inl e \<Rightarrow> Inl e | Inr imgs_sampled1 \<Rightarrow>
      case gather imgs latent_indices2 of Inl e \<Rightarrow> Inl e | Inr imgs_sampled2 \<Rightarrow>
        Inr ((imgs_sampled1, imgs_sampled2, y), c3))"

text \<open>
  A representation: the number of its dimensions and its output for one image (the mean of
  the encoder's posterior, or the projection of PCA or ICA).
\<close>

record 'img representation =
  dim :: nat
  transform :: "'img \<Rightarrow> real list"

text \<open>
  \<open>torch.mean(torch.abs(torch.sub(mu1, mu2)), 0)\<close>: for every dimension the mean over the
  samples of the absolute difference.
\<close>

definition z_diff_b :: "'img representation \<Rightarrow> 'img list \<Rightarrow> 'img list \<Rightarrow> fl list" where
  "z_diff_b r imgs_sampled1 imgs_sampled2 =
     (let mu1 = map (transform r) imgs_sampled1;
          mu2 = map (transform r) imgs_sampled2;
          z_diff = map2 (map2 (\<lambda>a b. \<bar>a - b\<bar>)) mu1 mu2
      in map (\<lambda>j. fl_div (Fin (sum_list (map (\<lambda>row. row ! j) z_diff)))
                     (Fin (real (length z_diff))))
           [0..<dim r])"

text \<open>
  The loop \<open>for method in methods.keys()\<close> of \<open>_compute_z_b_diff_y\<close>: a name other than
  \<open>VAE\<close>, \<open>PCA\<close> and \<open>ICA\<close> raises \<open>ValueError\<close>.
\<close>

fun method_records ::
  "(string \<times> 'img representation) list \<Rightarrow> 'img list \<Rightarrow> 'img list \<Rightarrow> nat
     \<Rightarrow> error + (string \<times> fl list \<times> nat) list" where
  "method_records [] imgs_sampled1 imgs_sampled2 y = Inr []"
| "method_records ((method, r) # rest) imgs_sampled1 imgs_sampled2 y =
     (if method = ''VAE'' \<or> method = ''PCA'' \<or> method = ''ICA'' then
        (case method_records rest imgs_sampled1 imgs_sampled2 y of
           Inl e \<Rightarrow> Inl e
         | Inr res \<Rightarrow> Inr ((method, z_diff_b r imgs_sampled1 imgs_sampled2, y) # res))
      else Inl ValueError)"

definition compute_z_b_diff_y ::
  "(nat \<Rightarrow> nat \<Rightarrow> nat) \<Rightarrow> (string \<times> 'img representation) list \<Rightarrow> nat \<Rightarrow> nat list \<Rightarrow> 'img list
     \<Rightarrow> rng \<Rightarrow> error + (string \<times> fl list \<times> nat) list \<times> rng" where
  "compute_z_b_diff_y raw methods sample_size lat_sizes imgs c =
     (case images_from_data_gen raw sample_size lat_sizes imgs c of
        Inl e \<Rightarrow> Inl e
      | Inr ((imgs_sampled1, imgs_sampled2, y), c') \<Rightarrow>
          (case method_records methods imgs_sampled1 imgs_sampled2 y of
             Inl e \<Rightarrow> Inl e
           | Inr res \<Rightarrow> Inr (res, c')))"

text \<open>
  The two tables of factor values as the specification words them. The factor held fixed is
  the first draw; its values, the second draw, stand in both tables; every other factor
  has a draw of its own in each table, the draws being numbered in the order of the
  factors.
\<close>

definition spec_fixed_factor :: "(nat \<Rightarrow> nat \<Rightarrow> nat) \<Rightarrow> nat list \<Rightarrow> rng \<Rightarrow> nat" where
  "spec_fixed_factor raw lat_sizes c = raw c 0 mod length lat_sizes"

definition spec_draw :: "(nat \<Rightarrow> nat \<Rightarrow> nat) \<Rightarrow> nat \<Rightarrow> nat \<Rightarrow> nat \<Rightarrow> nat list" where
  "spec_draw raw n high sample_size = map (\<lambda>t. raw n t mod high) [0..<sample_size]"

definition spec_draw_number :: "rng \<Rightarrow> nat \<Rightarrow> nat \<Rightarrow> nat \<Rightarrow> nat" where
  "spec_draw_number c y i set_number =
     c + 2 + 2 * (if i < y then i else i - 1) + set_number"

definition spec_samples ::
  "(nat \<Rightarrow> nat \<Rightarrow> nat) \<Rightarrow> nat \<Rightarrow> nat list \<Rightarrow> rng \<Rightarrow> nat \<Rightarrow> nat list list" where
  "spec_samples raw sample_size lat_sizes c set_number =
     (let y = spec_fixed_factor raw lat_sizes c
      in map (\<lambda>i. if i = y then spec_draw raw (Suc c) (lat_sizes ! y) sample_size
                  else spec_draw raw (spec_draw_number c y i set_number) (lat_sizes ! i)
                         sample_size)
           [0..<length lat_sizes])"

text \<open>
  The images of a table of factor values: for every sample the image at the dense index
  of its factor values.
\<close>

definition spec_images :: "nat list \<Rightarrow> 'img list \<Rightarrow> nat \<Rightarrow> nat list list \<Rightarrow> 'img list" where
  "spec_images lat_sizes imgs sample_size columns =
     map (\<lambda>row. imgs ! projr (latent_index lat_sizes row)) (rows_of_columns sample_size columns)"

text \<open>The mean absolute difference of a representation over two lists of images.\<close>

definition spec_mean_abs_diff :: "'img representation \<Rightarrow> 'img list \<Rightarrow> 'img list \<Rightarrow> fl list" where
  "spec_mean_abs_diff r xs ys =
     map (\<lambda>j. fl_div (Fin (sum_list (map2 (\<lambda>x y. \<bar>transform r x ! j - transform r y ! j\<bar>) xs ys)))
                  (Fin (real (min (length xs) (length ys)))))
       [0..<dim r]"

subsection \<open>The baseline trainers (\<open>_disentanglement_metric\<close>, lines 188-221)\<close>

text \<open>
  The array \<open>imgs\<close> of the dataset: its shape \<open>(n, height, width)\<close> and, for every image,
  its pixels in row-major order. \<open>np.reshape(imgs, (imgs.shape[0], imgs.shape[1]**2))\<close>
  raises \<open>ValueError\<close> unless the new shape holds as many pixels; where it returns, its rows
  are the flattened images.
\<close>

record image_array =
  height :: nat
  width :: nat
  images :: "real list list"

definition reshape_flat :: "image_array \<Rightarrow> error + real list list" where
  "reshape_flat imgs =
     (if length (images imgs) * height imgs * width imgs
           = length (images imgs) * (height imgs)\<^sup>2
      then Inr (images imgs) else Inl ValueError)"

text \<open>
  An entry of the dictionary \<open>methods\<close>: the model itself under \<open>VAE\<close>, a fitted projection
  under \<open>PCA\<close> and \<open>ICA\<close>. An assignment to a key that is present replaces its value.
\<close>

datatype 'm fitted_method = The_model | Fitted 'm

fun dict_set :: "'k \<Rightarrow> 'v \<Rightarrow> ('k \<times> 'v) list \<Rightarrow> ('k \<times> 'v) list" where
  "dict_set k v [] = [(k, v)]"
| "dict_set k v ((k', v') # kvs) =
     (if k = k' then (k, v) # kvs else (k', v') # dict_set k v kvs)"

text \<open>
  The local variables of the loop that outlive one pass: the dictionary \<open>methods\<close>, the
  variable \<open>imgs_pca\<close> (unbound until the branch of \<open>PCA\<close> assigns it) and the generator.
\<close>

record 'm trainer_state =
  method_dict :: "(string \<times> 'm fitted_method) list"
  imgs_pca :: "real list list option"
  generator :: rng

definition initial_trainer_state :: "rng \<Rightarrow> 'm trainer_state" where
  "initial_trainer_state c = \<lparr>method_dict = [], imgs_pca = None, generator = c\<rparr>"

text \<open>
  The loop \<open>for method_name in method_names\<close>. The fitting of scikit-learn
  (\<open>decomposition.PCA(...).fit\<close>, \<open>decomposition.FastICA(...).fit\<close>) is the pair of
  parameters \<open>pca_fit\<close> and \<open>ica_fit\<close>, applied to the number of components and the rows of
  the subsample. The writes to the tracking service, behind \<open>use_wandb\<close>, are left out.
\<close>

fun train_methods ::
  "(nat \<Rightarrow> real list list \<Rightarrow> error + 'm) \<Rightarrow> (nat \<Rightarrow> real list list \<Rightarrow> error + 'm)
     \<Rightarrow> (nat \<Rightarrow> nat \<Rightarrow> nat) \<Rightarrow> nat \<Rightarrow> image_array \<Rightarrow> string list \<Rightarrow> 'm trainer_state
     \<Rightarrow> error + 'm trainer_state" where
  "train_methods pca_fit ica_fit raw latent_dim imgs [] st = Inr st"
| "train_methods pca_fit ica_fit raw latent_dim imgs (method_name # rest) st =
     (if method_name = ''VAE'' then
        train_methods pca_fit ica_fit raw latent_dim imgs rest
          (st\<lparr>method_dict := dict_set ''VAE'' The_model (method_dict st)\<rparr>)
      else if method_name = ''PCA'' then
        (case reshape_flat imgs of Inl e \<Rightarrow> Inl e | Inr imgs_pca0 \<Rightarrow>
         case randint raw (length imgs_pca0) 5000 (generator st) of
           Inl e \<Rightarrow> Inl e | Inr (idx, c) \<Rightarrow>
         case gather imgs_pca0 idx of Inl e \<Rightarrow> Inl e | Inr imgs_pca1 \<Rightarrow>
         case pca_fit latent_dim imgs_pca1 of Inl e \<Rightarrow> Inl e | Inr pca \<Rightarrow>
           train_methods pca_fit ica_fit raw latent_dim imgs rest
             (st\<lparr>method_dict := dict_set ''PCA'' (Fitted pca) (method_dict st),
                 imgs_pca := Some imgs_pca1, generator := c\<rparr>))
      else if method_name = ''ICA'' then
        (case reshape_flat imgs of Inl e \<Rightarrow> Inl e | Inr imgs_ica0 \<Rightarrow>
         case imgs_pca st of None \<Rightarrow> Inl UnboundLocalError | Some imgs_pca1 \<Rightarrow>
         case randint raw (length imgs_pca1) 1000 (generator st) of
           Inl e \<Rightarrow> Inl e | Inr (idx, c) \<Rightarrow>
         case gather imgs_ica0 idx of Inl e \<Rightarrow> Inl e | Inr imgs_ica1 \<Rightarrow>
         case ica_fit latent_dim imgs_ica1 of Inl e \<Rightarrow> Inl e | Inr ica \<Rightarrow>
           train_methods pca_fit ica_fit raw latent_dim imgs rest
             (st\<lparr>method_dict := dict_set ''ICA'' (Fitted ica) (method_dict st), generator := c\<rparr>))
      else Inl ValueError)"


subsection \<open>The evaluator: \<open>compute_metrics\<close>, \<open>compute_losses\<close> and \<open>__call__\<close>\<close>

text \<open>
  A name that a function body never assigns is looked up among the globals of its module and
  then among the builtins. \<open>module_names\<close> lists what \<open>evaluate.py\<close> binds at module level
  (its imports, its three constants and its class); no builtin of Python is called
  \<open>non_linear_accuracies\<close>, so the builtins are left out of the lookup.
\<close>

definition module_names :: "string list" where
  "module_names =
     [''os'', ''logging'', ''math'', ''sys'', ''reduce'', ''defaultdict'', ''json'',
      ''default_timer'', ''trange'', ''tqdm'', ''np'', ''RandomState'', ''torch'',
      ''pca_lowrank'', ''get_loss_f'', ''log_density_gaussian'', ''save_metadata'',
      ''Classifier'', ''weight_reset'', ''decomposition'', ''wandb'',
      ''TEST_LOSSES_FILE'', ''METRICS_FILENAME'', ''METRIC_HELPERS_FILE'', ''Evaluator'']"

datatype binding = Global string

definition load_name :: "string list \<Rightarrow> string \<Rightarrow> error + binding" where
  "load_name assigned name =
     (if name \<in> set assigned then Inl UnboundLocalError
      else if name \<in> set module_names then Inr (Global name)
      else Inl NameError)"

text \<open>
  The names that the body of \<open>compute_metrics\<close> assigns (lines 141 to 179). Line 150, the only
  place that would assign \<open>non_linear_accuracies\<close>, is a comment.
\<close>

definition compute_metrics_locals :: "string list" where
  "compute_metrics_locals =
     [''lat_sizes'', ''lat_names'', ''lat_imgs'', ''accuracies'', ''samples_zCx'',
      ''params_zCx'', ''len_dataset'', ''latent_dim'', ''H_z'', ''H_zCv'', ''mut_info'',
      ''sorted_mut_info'', ''metric_helpers'', ''mig'', ''aam'', ''metrics'']"

text \<open>
  The data loader: its dataset, whose attributes \<open>lat_sizes\<close>, \<open>lat_names\<close> and \<open>imgs\<close> may be
  missing, and its batches.
\<close>

record 'i dataset_attrs =
  ds_lat_sizes :: "nat list option"
  ds_lat_names :: "string list option"
  ds_imgs :: "'i option"

record ('i, 'b) loader =
  ds :: "'i dataset_attrs"
  batch_list :: "'b list"

type_synonym accuracy_dict = "(string \<times> real) list"

record metrics_dict =
  DM :: accuracy_dict
  NLDM :: binding
  MIG :: fl
  AAM :: fl

type_synonym loss_storer = "(string \<times> real list) list"
type_synonym loss_dict = "(string \<times> real) list"

datatype artifact =
    Helpers_file storer
  | Metrics_file metrics_dict
  | Losses_file "loss_dict option"

definition TEST_LOSSES_FILE :: string where "TEST_LOSSES_FILE = ''test_losses.log''"
definition METRICS_FILENAME :: string where "METRICS_FILENAME = ''metrics.log''"
definition METRIC_HELPERS_FILE :: string where "METRIC_HELPERS_FILE = ''metric_helpers.pth''"

text \<open>
  The state of an evaluator: the flag \<open>self.model.training\<close>, the files under \<open>save_dir\<close>, and a
  log that receives the value of the flag each time a computation runs the model or hands the
  flag to the loss.
\<close>

record evaluator_state =
  model_training :: bool
  saved :: "string \<rightharpoonup> artifact"
  mode_log :: "bool list"

definition uses_model :: "evaluator_state \<Rightarrow> evaluator_state" where
  "uses_model st = st\<lparr>mode_log := mode_log st @ [model_training st]\<rparr>"

text \<open>
  The objects that the evaluator is built from or calls and that this repository does not
  define (the model, the loss, the classifier training behind the disentanglement metric), and
  the methods of the evaluator that are modelled on their own above, as they are seen from
  \<open>compute_metrics\<close>: each is a function of its arguments and of the mode of the model, and
  returns a value or raises. None of them switches the mode of the model.
\<close>

record ('i, 'b, 'o) collaborators =
  disentanglement_metric :: "bool \<Rightarrow> nat list \<Rightarrow> 'i \<Rightarrow> error + accuracy_dict"
  compute_q_zCx :: "bool \<Rightarrow> ('i, 'b) loader \<Rightarrow> error + matrix \<times> matrix \<times> matrix"
  latent_entropies :: "matrix \<Rightarrow> matrix \<times> matrix \<Rightarrow> error + real list"
  cond_entropies ::
    "matrix \<Rightarrow> matrix \<times> matrix \<Rightarrow> nat list \<Rightarrow> string list \<Rightarrow> error + matrix"
  model_forward :: "bool \<Rightarrow> 'b \<Rightarrow> error + 'o"
  loss_f :: "'b \<Rightarrow> 'o \<Rightarrow> bool \<Rightarrow> loss_storer \<Rightarrow> (error + unit) \<times> loss_storer"
  call_optimize :: "'b \<Rightarrow> bool \<Rightarrow> loss_storer \<Rightarrow> (error + unit) \<times> loss_storer"

definition dict_get :: "(string \<times> 'v) list \<Rightarrow> string \<Rightarrow> error + 'v" where
  "dict_get d k = (case map_of d k of None \<Rightarrow> Inl KeyError | Some v \<Rightarrow> Inr v)"

text \<open>Line 152: the three accuracies that are logged when \<open>use_wandb\<close> is set.\<close>

definition wandb_log :: "bool \<Rightarrow> accuracy_dict \<Rightarrow> error + unit" where
  "wandb_log use_wandb accuracies =
     (if use_wandb then
        (case dict_get accuracies ''VAE'' of Inl e \<Rightarrow> Inl e | Inr _ \<Rightarrow>
         case dict_get accuracies ''PCA'' of Inl e \<Rightarrow> Inl e | Inr _ \<Rightarrow>
         case dict_get accuracies ''ICA'' of Inl e \<Rightarrow> Inl e | Inr _ \<Rightarrow> Inr ())
      else Inr ())"

text \<open>
  \<open>compute_metrics\<close>, lines 136 to 182. The dictionary \<open>metric_helpers\<close> is the object that
  \<open>_mutual_information_gap\<close> and \<open>_axis_aligned_metric\<close> write into; \<open>torch.save\<close> on line 180
  comes after the dictionary display of line 179, whose entries are evaluated from left to
  right.
\<close>

definition compute_metrics ::
  "('i, 'b, 'o) collaborators \<Rightarrow> bool \<Rightarrow> ('i, 'b) loader \<Rightarrow> evaluator_state
     \<Rightarrow> (error + metrics_dict) \<times> evaluator_state" where
  "compute_metrics cs use_wandb dataloader st =
     (case ds_lat_sizes (ds dataloader) of None \<Rightarrow> (Inl ValueError, st) | Some lat_sizes \<Rightarrow>
     (case ds_lat_names (ds dataloader) of None \<Rightarrow> (Inl ValueError, st) | Some lat_names \<Rightarrow>
     (case ds_imgs (ds dataloader) of None \<Rightarrow> (Inl ValueError, st) | Some lat_imgs \<Rightarrow>
     (let st = uses_model st in
     (case disentanglement_metric cs (model_training st) lat_sizes lat_imgs of
        Inl e \<Rightarrow> (Inl e, st) | Inr accuracies \<Rightarrow>
     (case wandb_log use_wandb accuracies of Inl e \<Rightarrow> (Inl e, st) | Inr _ \<Rightarrow>
     (let st = uses_model st in
     (case compute_q_zCx cs (model_training st) dataloader of
        Inl e \<Rightarrow> (Inl e, st) | Inr (samples_zCx, params_zCx) \<Rightarrow>
     (case latent_entropies cs samples_zCx params_zCx of
        Inl e \<Rightarrow> (Inl e, st) | Inr H_z \<Rightarrow>
     (case cond_entropies cs samples_zCx params_zCx lat_sizes lat_names of
        Inl e \<Rightarrow> (Inl e, st) | Inr H_zCv \<Rightarrow>
     (case sorted_mut_info H_z H_zCv of Inl e \<Rightarrow> (Inl e, st) | Inr sorted_mi \<Rightarrow>
     (let metric_helpers =
            [''marginal_entropies'' \<mapsto> Entropies H_z,
             ''cond_entropies'' \<mapsto> Entropy_table H_zCv] in
     (case mutual_information_gap sorted_mi lat_sizes (Some metric_helpers) of
        Inl e \<Rightarrow> (Inl e, st) | Inr (mig, helpers1) \<Rightarrow>
     (case axis_aligned_metric sorted_mi helpers1 of
        Inl e \<Rightarrow> (Inl e, st) | Inr (aam, helpers2) \<Rightarrow>
     (case load_name compute_metrics_locals ''non_linear_accuracies'' of
        Inl e \<Rightarrow> (Inl e, st) | Inr non_linear_accuracies \<Rightarrow>
     (let metrics = \<lparr>DM = accuracies, NLDM = non_linear_accuracies, MIG = mig, AAM = aam\<rparr>;
          written = (case helpers2 of None \<Rightarrow> metric_helpers | Some h \<Rightarrow> h)
      in (Inr metrics,
          st\<lparr>saved := (saved st)(METRIC_HELPERS_FILE \<mapsto> Helpers_file written)\<rparr>)))))))))))))))))"

text \<open>
  \<open>compute_losses\<close>, lines 113 to 126. The \<open>return\<close> of line 126 is inside the loop, so that
  only the first batch is used; with no batch the function falls off its end and returns
  \<open>None\<close>. A \<open>ValueError\<close> of the model or of the loss sends the batch to \<open>call_optimize\<close>; the
  storer is the object that the loss has been writing into.
\<close>

definition average_losses :: "loss_storer \<Rightarrow> nat \<Rightarrow> loss_dict" where
  "average_losses storer n = map (\<lambda>(k, v). (k, sum_list v / real n)) storer"

definition first_batch_losses ::
  "('i, 'b, 'o) collaborators \<Rightarrow> 'b \<Rightarrow> evaluator_state
     \<Rightarrow> (error + loss_storer) \<times> evaluator_state" where
  "first_batch_losses cs data st =
     (let storer = [];
          st = uses_model st in
      case model_forward cs (model_training st) data of
        Inl e \<Rightarrow>
          (if e = ValueError then
             (let st = uses_model st in
              case call_optimize cs data (model_training st) storer of
                (Inl e', _) \<Rightarrow> (Inl e', st)
              | (Inr _, storer') \<Rightarrow> (Inr storer', st))
           else (Inl e, st))
      | Inr out \<Rightarrow>
          (let st = uses_model st in
           case loss_f cs data out (model_training st) storer of
             (Inl e, storer') \<Rightarrow>
               (if e = ValueError then
                  (let st = uses_model st in
                   case call_optimize cs data (model_training st) storer' of
                     (Inl e', _) \<Rightarrow> (Inl e', st)
                   | (Inr _, storer'') \<Rightarrow> (Inr storer'', st))
                else (Inl e, st))
           | (Inr _, storer') \<Rightarrow> (Inr storer', st)))"

definition compute_losses ::
  "('i, 'b, 'o) collaborators \<Rightarrow> ('i, 'b) loader \<Rightarrow> evaluator_state
     \<Rightarrow> (error + loss_dict option) \<times> evaluator_state" where
  "compute_losses cs dataloader st =
     (case batch_list dataloader of
        [] \<Rightarrow> (Inr None, st)
      | data # _ \<Rightarrow>
          (case first_batch_losses cs data st of
             (Inl e, st') \<Rightarrow> (Inl e, st')
           | (Inr storer, st') \<Rightarrow>
               (Inr (Some (average_losses storer (length (batch_list dataloader)))), st')))"

text \<open>
  \<open>__call__\<close>, lines 83 to 104. \<open>self.model.eval()\<close> clears the flag and \<open>self.model.train()\<close>
  sets it. The result of \<open>compute_metrics\<close> is bound to \<open>metrics\<close>, while the value returned is
  \<open>metric\<close>, which stays \<open>None\<close>. An exception of either computation leaves the function at
  once, before line 99.
\<close>

definition call ::
  "('i, 'b, 'o) collaborators \<Rightarrow> bool \<Rightarrow> ('i, 'b) loader \<Rightarrow> bool \<Rightarrow> bool \<Rightarrow> evaluator_state
     \<Rightarrow> (error + metrics_dict option \<times> loss_dict option) \<times> evaluator_state" where
  "call cs use_wandb data_loader is_metrics is_losses st =
     (let is_still_training = model_training st;
          st = st\<lparr>model_training := False\<rparr>;
          metric = None
      in
      case (if is_metrics then
              (case compute_metrics cs use_wandb data_loader st of
                 (Inl e, st') \<Rightarrow> (Inl e, st')
               | (Inr metrics, st') \<Rightarrow>
                   (Inr (), st'\<lparr>saved := (saved st')(METRICS_FILENAME \<mapsto> Metrics_file metrics)\<rparr>))
            else (Inr (), st)) of
        (Inl e, st) \<Rightarrow> (Inl e, st)
      | (Inr _, st) \<Rightarrow>
     (case (if is_losses then
              (case compute_losses cs data_loader st of
                 (Inl e, st') \<Rightarrow> (Inl e, st')
               | (Inr losses, st') \<Rightarrow>
                   (Inr losses,
                    st'\<lparr>saved := (saved st')(TEST_LOSSES_FILE \<mapsto> Losses_file losses)\<rparr>))
            else (Inr None, st)) of
        (Inl e, st) \<Rightarrow> (Inl e, st)
      | (Inr losses, st) \<Rightarrow>
     (let st = (if is_still_training then st\<lparr>model_training := True\<rparr> else st)
      in (Inr (metric, losses), st))))"

text \<open>The flags that the computations of a call have seen: what the call appended to the log.\<close>

definition modes_during :: "evaluator_state \<Rightarrow> evaluator_state \<Rightarrow> bool list" where
  "modes_during before after = drop (length (mode_log before)) (mode_log after)"
subsection \<open>Auxiliary notions for the mixed-radix index\<close>

text \<open>The bases are the products of the cardinalities that follow each factor.\<close>

definition suffix_prods :: "nat list \<Rightarrow> nat list" where
  "suffix_prods xs = map (\<lambda>i. prod_list (drop (Suc i) xs)) [0..<length xs]"

definition enc :: "nat list \<Rightarrow> nat list \<Rightarrow> nat" where
  "enc ss vs = sum_list (map2 (*) vs (suffix_prods ss))"

definition dec :: "nat list \<Rightarrow> nat \<Rightarrow> nat list" where
  "dec ss idx = map2 (\<lambda>b s. (idx div b) mod s) (suffix_prods ss) ss"

subsection \<open>Auxiliary notions for the scores\<close>

text \<open>A floating-point value that is neither not-a-number nor minus infinity.\<close>

definition upper :: "fl \<Rightarrow> bool" where
  "upper x = (case x of Fin a \<Rightarrow> True | PInf \<Rightarrow> True | _ \<Rightarrow> False)"

text \<open>What \<open>_axis_aligned_metric\<close> computes for one row of its argument.\<close>

definition aam_of_row :: "real list \<Rightarrow> fl" where
  "aam_of_row r =
     (let x = fl_div (Fin (max (r ! 0 - sum_list (drop 1 r)) 0)) (Fin (r ! 0))
      in if is_nan x then Fin 0 else x)"

text \<open>What \<open>_mutual_information_gap\<close> computes for one factor.\<close>

definition mig_of_row :: "real list \<Rightarrow> real list \<Rightarrow> nat \<Rightarrow> fl" where
  "mig_of_row H_z r n =
     fl_div (Fin (largest (map2 (\<lambda>c h. max (h - c) 0) r H_z)
                - second_largest (map2 (\<lambda>c h. max (h - c) 0) r H_z))) (fl_log n)"

subsection \<open>Auxiliary notions for the entropy estimator\<close>

text \<open>The estimator with the loop over the minibatches replaced by one sum over all pivots.\<close>

definition estimate_at_once ::
  "(real \<Rightarrow> real \<Rightarrow> real \<Rightarrow> real) \<Rightarrow> nat list \<Rightarrow> matrix \<Rightarrow> matrix \<times> matrix \<Rightarrow> nat
     \<Rightarrow> error + fl list" where
  "estimate_at_once ld perm samples_zCx params_zCX n_samples =
     (case index_select samples_zCx (take n_samples perm) of Inl e \<Rightarrow> Inl e | Inr selected \<Rightarrow>
      case view selected (ncols samples_zCx) n_samples of Inl e \<Rightarrow> Inl e | Inr z \<Rightarrow>
      case expand (fst params_zCX) (nrows samples_zCx) (ncols samples_zCx) of
        Inl e \<Rightarrow> Inl e | Inr mean \<Rightarrow>
      case expand (snd params_zCX) (nrows samples_zCx) (ncols samples_zCx) of
        Inl e \<Rightarrow> Inl e | Inr log_var \<Rightarrow>
      case math_log (nrows samples_zCx) of Inl e \<Rightarrow> Inl e | Inr log_N \<Rightarrow>
        Inr (map (\<lambda>j. fl_div
                  (Fin (sum_list (map (neg_log_q_z ld (nrows samples_zCx) log_N mean log_var z j)
                          [0..<n_samples])))
                  (Fin (real n_samples)))
               [0..<ncols samples_zCx]))"

subsection \<open>Auxiliary notions for the conditional entropies\<close>

text \<open>The indices below the product of \<open>ss\<close> whose mixed-radix digit \<open>k\<close> is \<open>v\<close>.\<close>

definition digit_examples :: "nat list \<Rightarrow> nat \<Rightarrow> nat \<Rightarrow> nat list" where
  "digit_examples ss k v = filter (\<lambda>n. dec ss n ! k = v) [0..<prod_list ss]"

text \<open>
  The row of \<open>H_zCv\<close> for the factor \<open>k\<close> when the estimate for its value \<open>v\<close> is \<open>h k v\<close>.
\<close>

definition factor_row :: "(nat \<Rightarrow> nat \<Rightarrow> fl list) \<Rightarrow> nat list \<Rightarrow> nat \<Rightarrow> nat \<Rightarrow> fl list" where
  "factor_row h lat_sizes latent_dim k =
     map (\<lambda>j. fl_sum (map (\<lambda>v. fl_div (h k v ! j) (Fin (real (lat_sizes ! k)))) [0..<lat_sizes ! k]))
       [0..<latent_dim]"

text \<open>
  An example: a dataset of two factors with 10000 values each and one latent dimension,
  whose statistics are all zero, and the estimate on each of its slices.
\<close>

definition example_entries :: "real list" where
  "example_entries = replicate 100000000 0"

definition example_tensor :: tensor where
  "example_tensor = \<lparr>shape = [10000, 10000, 1], entries = example_entries\<rparr>"

definition example_entropy :: "nat \<Rightarrow> nat \<Rightarrow> fl list" where
  "example_entropy k v =
     map (\<lambda>j. Fin (spec_entropy log_density_gaussian [0..<10000]
                  (spec_slice [10000, 10000] 1 k v example_entries)
                  (spec_slice [10000, 10000] 1 k v example_entries,
                   spec_slice [10000, 10000] 1 k v example_entries) 10000 j))
       [0..<1]"

subsection \<open>Auxiliary notions for the paired-sample builder\<close>

text \<open>The column of the factor \<open>i\<close> in the table \<open>set_number\<close> when the factor \<open>y\<close> is held fixed.\<close>

definition spec_column :: "(nat \<Rightarrow> nat \<Rightarrow> nat) \<Rightarrow> nat \<Rightarrow> nat list \<Rightarrow> rng \<Rightarrow> nat \<Rightarrow> nat \<Rightarrow> nat \<Rightarrow> nat list" where
  "spec_column raw sample_size lat_sizes c y set_number i =
     (if i = y then spec_draw raw (Suc c) (lat_sizes ! y) sample_size
      else spec_draw raw (spec_draw_number c y i set_number) (lat_sizes ! i) sample_size)"


subsection \<open>Auxiliary definitions for the evaluator\<close>

text \<open>
  \<open>same_mode st st'\<close>: from \<open>st\<close> to \<open>st'\<close> the flag of the model has not changed, and the log
  has only received copies of it.
\<close>

definition same_mode :: "evaluator_state \<Rightarrow> evaluator_state \<Rightarrow> bool" where
  "same_mode st st' \<longleftrightarrow>
     model_training st' = model_training st
     \<and> (\<exists>k. mode_log st' = mode_log st @ replicate k (model_training st))"

text \<open>
  An evaluator whose collaborators all succeed, on a dataset of one factor with two values and
  a loader of two batches.
\<close>

definition example_collaborators :: "(unit, unit, unit) collaborators" where
  "example_collaborators =
     \<lparr>disentanglement_metric = (\<lambda>_ _ _. Inr [(''VAE'', 1), (''PCA'', 1), (''ICA'', 1)]),
      compute_q_zCx = (\<lambda>_ _. Inr (\<lparr>nrows = 2, ncols = 2, elems = [0, 0, 0, 0]\<rparr>,
                                 \<lparr>nrows = 2, ncols = 2, elems = [0, 0, 0, 0]\<rparr>,
                                 \<lparr>nrows = 2, ncols = 2, elems = [0, 0, 0, 0]\<rparr>)),
      latent_entropies = (\<lambda>_ _. Inr [1, 1]),
      cond_entropies = (\<lambda>_ _ _ _. Inr \<lparr>nrows = 1, ncols = 2, elems = [0, 1]\<rparr>),
      model_forward = (\<lambda>_ _. Inr ()),
      loss_f = (\<lambda>_ _ _ storer. (Inr (), (''loss'', [4]) # storer)),
      call_optimize = (\<lambda>_ _ storer. (Inr (), storer))\<rparr>"

definition example_loader :: "(unit, unit) loader" where
  "example_loader =
     \<lparr>ds = \<lparr>ds_lat_sizes = Some [2], ds_lat_names = Some [''shape''], ds_imgs = Some ()\<rparr>,
      batch_list = [(), ()]\<rparr>"

definition example_state :: "bool \<Rightarrow> evaluator_state" where
  "example_state training = \<lparr>model_training = training, saved = Map.empty, mode_log = []\<rparr>"
section \<open>Properties\<close>

subsection \<open>The mixed-radix index\<close>

lemma upt_0_Suc: "[0..<Suc n] = 0 # map Suc [0..<n]"
  by (simp add: upt_conv_Cons map_Suc_upt del: upt_Suc)

lemma cumprod_from_snoc:
  "cumprod_from a (xs @ [x]) = cumprod_from a xs @ [a * prod_list xs * x]"
  by (induction xs arbitrary: a) (simp_all add: mult.assoc)

lemma suffix_prods_Cons: "suffix_prods (x # xs) = prod_list xs # suffix_prods xs"
  by (simp add: suffix_prods_def upt_0_Suc comp_def del: upt_Suc)

lemma rev_cumprod_rev:
  "rev (cumprod_from 1 (rev xs)) = map (\<lambda>i. prod_list (drop i xs)) [0..<length xs]"
proof (induction xs)
  case Nil
  then show ?case by simp
next
  case (Cons x xs)
  then show ?case
    by (simp add: cumprod_from_snoc upt_0_Suc comp_def mult.commute del: upt_Suc)
qed

lemma latents_bases_alt:
  "latents_bases xs = drop 1 (map (\<lambda>i. prod_list (drop i xs)) [0..<length xs]) @ [1]"
  unfolding latents_bases_def cumprod_def rev_cumprod_rev ..

lemma length_latents_bases: "xs \<noteq> [] \<Longrightarrow> length (latents_bases xs) = length xs"
  unfolding latents_bases_alt by (cases xs) simp_all

lemma latents_bases_suffix:
  assumes "lat_sizes \<noteq> []"
  shows "latents_bases lat_sizes = suffix_prods lat_sizes"
proof (rule nth_equalityI)
  show "length (latents_bases lat_sizes) = length (suffix_prods lat_sizes)"
    using assms by (simp add: length_latents_bases suffix_prods_def)
next
  fix i
  assume "i < length (latents_bases lat_sizes)"
  then have i: "i < length lat_sizes"
    using assms by (simp add: length_latents_bases)
  show "latents_bases lat_sizes ! i = suffix_prods lat_sizes ! i"
  proof (cases "Suc i < length lat_sizes")
    case True
    then have "i < length lat_sizes - Suc 0"
      by simp
    then show ?thesis
      unfolding latents_bases_alt using i True by (simp add: suffix_prods_def nth_append)
  next
    case False
    then have n: "\<not> i < length lat_sizes - Suc 0" "i - (length lat_sizes - Suc 0) = 0"
      and d: "drop (Suc i) lat_sizes = []"
      using i by simp_all
    show ?thesis
      unfolding latents_bases_alt using i n d by (simp add: suffix_prods_def nth_append)
  qed
qed

lemma enc_Cons: "enc (s # ss) (v # vs) = v * prod_list ss + enc ss vs"
  by (simp add: enc_def suffix_prods_Cons)

lemma dec_Cons: "dec (s # ss) idx = (idx div prod_list ss) mod s # dec ss idx"
  by (simp add: dec_def suffix_prods_Cons)

lemma enc_lt: "list_all2 (<) vs ss \<Longrightarrow> enc ss vs < prod_list ss"
proof (induction vs ss rule: list_all2_induct)
  case Nil
  then show ?case by (simp add: enc_def)
next
  case (Cons v vs s ss)
  have "v * prod_list ss + enc ss vs < v * prod_list ss + prod_list ss"
    using Cons.IH by simp
  also have "\<dots> = Suc v * prod_list ss" by simp
  also have "\<dots> \<le> s * prod_list ss"
    using Cons.hyps(1) by (intro mult_le_mono1) simp
  finally show ?case by (simp add: enc_Cons)
qed

lemma div_mod_shift:
  fixes b s p v r :: nat
  assumes "b * s dvd p"
  shows "((v * p + r) div b) mod s = (r div b) mod s"
proof (cases "b = 0")
  case True
  then show ?thesis by simp
next
  case False
  obtain c where p: "p = b * s * c" using assms by (auto simp: dvd_def)
  have "(v * p + r) div b = r div b + (v * c) * s"
    using False by (simp add: p algebra_simps)
  then show ?thesis by (simp only: mod_mult_self1)
qed

lemma suffix_dvd:
  assumes "i < length ss"
  shows "suffix_prods ss ! i * ss ! i dvd prod_list ss"
proof -
  have "prod_list ss = prod_list (take i ss) * prod_list (drop i ss)"
    by (metis append_take_drop_id prod_list.append)
  moreover have "prod_list (drop i ss) = ss ! i * prod_list (drop (Suc i) ss)"
    using assms by (simp add: Cons_nth_drop_Suc [symmetric])
  ultimately show ?thesis
    using assms by (simp add: suffix_prods_def)
qed

lemma dec_shift: "dec ss (v * prod_list ss + r) = dec ss r"
proof (rule nth_equalityI)
  show "length (dec ss (v * prod_list ss + r)) = length (dec ss r)"
    by (simp add: dec_def)
next
  fix i assume "i < length (dec ss (v * prod_list ss + r))"
  then have i: "i < length ss" by (simp add: dec_def suffix_prods_def)
  then show "dec ss (v * prod_list ss + r) ! i = dec ss r ! i"
    using div_mod_shift [OF suffix_dvd [OF i]]
    by (simp add: dec_def suffix_prods_def)
qed

lemma dec_enc: "list_all2 (<) vs ss \<Longrightarrow> dec ss (enc ss vs) = vs"
proof (induction vs ss rule: list_all2_induct)
  case Nil
  then show ?case by (simp add: dec_def)
next
  case (Cons v vs s ss)
  have lt: "enc ss vs < prod_list ss" using Cons.hyps(2) by (rule enc_lt)
  then have "(v * prod_list ss + enc ss vs) div prod_list ss = v"
    by simp
  then show ?case
    using Cons.hyps(1) Cons.IH by (simp add: enc_Cons dec_Cons dec_shift)
qed

lemma dec_valid: "idx < prod_list ss \<Longrightarrow> list_all2 (<) (dec ss idx) ss"
proof (induction ss arbitrary: idx)
  case Nil
  then show ?case by (simp add: dec_def)
next
  case (Cons s ss)
  have p: "0 < prod_list ss" "0 < s" using Cons.prems by (auto intro: Nat.gr0I)
  have "idx mod prod_list ss < prod_list ss" using p by simp
  then have "list_all2 (<) (dec ss (idx mod prod_list ss)) ss" by (rule Cons.IH)
  moreover have "dec ss idx = dec ss (idx mod prod_list ss)"
    using dec_shift [of ss "idx div prod_list ss" "idx mod prod_list ss"] by simp
  ultimately show ?case using p by (simp add: dec_Cons)
qed

lemma enc_dec: "idx < prod_list ss \<Longrightarrow> enc ss (dec ss idx) = idx"
proof (induction ss arbitrary: idx)
  case Nil
  then show ?case by (simp add: dec_def enc_def)
next
  case (Cons s ss)
  have p: "0 < prod_list ss" "0 < s" using Cons.prems by (auto intro: Nat.gr0I)
  have d: "idx div prod_list ss < s"
    using Cons.prems p by (simp add: less_mult_imp_div_less mult.commute)
  have "idx mod prod_list ss < prod_list ss" using p by simp
  then have "enc ss (dec ss (idx mod prod_list ss)) = idx mod prod_list ss" by (rule Cons.IH)
  moreover have "dec ss idx = dec ss (idx mod prod_list ss)"
    using dec_shift [of ss "idx div prod_list ss" "idx mod prod_list ss"] by simp
  ultimately show ?case using d by (simp add: dec_Cons enc_Cons)
qed

lemma latent_index_enc:
  assumes "lat_sizes \<noteq> []" and "list_all2 (<) vs lat_sizes"
  shows "latent_index lat_sizes vs = Inr (enc lat_sizes vs)"
proof -
  have "length vs = length lat_sizes"
    using assms(2) by (rule list_all2_lengthD)
  then show ?thesis
    using assms(1)
    by (simp add: latent_index_def np_dot_def enc_def latents_bases_suffix suffix_prods_def)
qed

lemma spec_decode_dec: "lat_sizes \<noteq> [] \<Longrightarrow> spec_decode lat_sizes idx = dec lat_sizes idx"
  by (simp add: spec_decode_def dec_def latents_bases_suffix)

text \<open>
  Claim C3. For a non-empty sequence of cardinalities the index computed by
  \<open>_images_from_data_gen\<close> (the dot product of the factor values with \<open>latents_bases\<close>) is a
  bijection from the tuples of factor values onto the indices below the product of the
  cardinalities, and decoding by per-factor division and modulo is its inverse in both
  directions.
\<close>

theorem latent_index_bijection:
  assumes "lat_sizes \<noteq> []"
  shows "bij_betw (\<lambda>vs. projr (latent_index lat_sizes vs))
           (factor_tuples lat_sizes) {..<prod_list lat_sizes}
       \<and> (\<forall>vs \<in> factor_tuples lat_sizes.
            \<exists>idx < prod_list lat_sizes.
              latent_index lat_sizes vs = Inr idx \<and> spec_decode lat_sizes idx = vs)
       \<and> (\<forall>idx < prod_list lat_sizes.
            spec_decode lat_sizes idx \<in> factor_tuples lat_sizes
          \<and> latent_index lat_sizes (spec_decode lat_sizes idx) = Inr idx)"
proof (intro conjI ballI allI impI)
  show "bij_betw (\<lambda>vs. projr (latent_index lat_sizes vs))
          (factor_tuples lat_sizes) {..<prod_list lat_sizes}"
  proof (rule bij_betw_byWitness [where f' = "spec_decode lat_sizes"])
    show "\<forall>vs \<in> factor_tuples lat_sizes.
            spec_decode lat_sizes (projr (latent_index lat_sizes vs)) = vs"
      using assms
      by (simp add: factor_tuples_def latent_index_enc spec_decode_dec dec_enc)
    show "\<forall>idx \<in> {..<prod_list lat_sizes}.
            projr (latent_index lat_sizes (spec_decode lat_sizes idx)) = idx"
      using assms
      by (simp add: spec_decode_dec latent_index_enc dec_valid enc_dec)
    show "(\<lambda>vs. projr (latent_index lat_sizes vs)) ` factor_tuples lat_sizes
            \<subseteq> {..<prod_list lat_sizes}"
      using assms by (auto simp: factor_tuples_def latent_index_enc enc_lt)
    show "spec_decode lat_sizes ` {..<prod_list lat_sizes} \<subseteq> factor_tuples lat_sizes"
      using assms by (auto simp: factor_tuples_def spec_decode_dec dec_valid)
  qed
next
  fix vs
  assume "vs \<in> factor_tuples lat_sizes"
  then have v: "list_all2 (<) vs lat_sizes"
    by (simp add: factor_tuples_def)
  have "enc lat_sizes vs < prod_list lat_sizes
      \<and> latent_index lat_sizes vs = Inr (enc lat_sizes vs)
      \<and> spec_decode lat_sizes (enc lat_sizes vs) = vs"
    using assms v by (simp add: enc_lt latent_index_enc spec_decode_dec dec_enc)
  then show "\<exists>idx < prod_list lat_sizes.
      latent_index lat_sizes vs = Inr idx \<and> spec_decode lat_sizes idx = vs"
    by blast
next
  fix idx
  assume "idx < prod_list lat_sizes"
  then show "spec_decode lat_sizes idx \<in> factor_tuples lat_sizes"
    using assms by (simp add: factor_tuples_def spec_decode_dec dec_valid)
next
  fix idx
  assume "idx < prod_list lat_sizes"
  then show "latent_index lat_sizes (spec_decode lat_sizes idx) = Inr idx"
    using assms by (simp add: spec_decode_dec latent_index_enc dec_valid enc_dec)
qed

lemma latent_index_example: "latent_index [2, 3] [1, 2] = Inr 5"
  by (simp add: latent_index_def latents_bases_def cumprod_def np_dot_def)

theorem latent_index_bijection_witness:
  "[2, 3] \<noteq> ([] :: nat list) \<and> [1, 2] \<in> factor_tuples [2, 3]
   \<and> latent_index [2, 3] [1, 2] = Inr 5 \<and> spec_decode [2, 3] 5 = [1, 2]"
proof -
  have m: "[1, 2] \<in> factor_tuples [2, 3]"
    by (simp add: factor_tuples_def)
  have "\<exists>idx < prod_list [2, 3 :: nat].
      latent_index [2, 3] [1, 2] = Inr idx \<and> spec_decode [2, 3] idx = [1, 2]"
    using latent_index_bijection [of "[2, 3]"] m by blast
  then obtain idx where "latent_index [2, 3] [1, 2] = Inr idx"
    and d: "spec_decode [2, 3] idx = [1, 2]"
    by blast
  then have "idx = 5"
    unfolding latent_index_example by simp
  then have "spec_decode [2, 3] 5 = [1, 2]"
    using d by simp
  then show ?thesis
    using m latent_index_example by simp
qed

subsection \<open>Tensors and floating-point sums\<close>

lemma drop_concat_uniform:
  "\<forall>r \<in> set rs. length r = d \<Longrightarrow> i \<le> length rs \<Longrightarrow> drop (i * d) (concat rs) = concat (drop i rs)"
proof (induction rs arbitrary: i)
  case Nil
  then show ?case by simp
next
  case (Cons r rs)
  show ?case
  proof (cases i)
    case 0
    then show ?thesis by simp
  next
    case (Suc k)
    then have "drop (i * d) (concat (r # rs)) = drop (k * d) (concat rs)"
      using Cons.prems by simp
    then show ?thesis
      using Cons Suc by simp
  qed
qed

lemma row_of_rows:
  assumes "\<forall>r \<in> set rs. length r = d" and "i < length rs"
  shows "row (of_rows d rs) i = rs ! i"
proof -
  have "drop (i * d) (concat rs) = concat (drop i rs)"
    using assms by (simp add: drop_concat_uniform)
  also have "drop i rs = rs ! i # drop (Suc i) rs"
    using assms(2) by (simp add: Cons_nth_drop_Suc)
  finally show ?thesis
    using assms by (simp add: row_def of_rows_def)
qed

lemma nrows_of_rows [simp]: "nrows (of_rows d rs) = length rs"
  and ncols_of_rows [simp]: "ncols (of_rows d rs) = d"
  by (simp_all add: of_rows_def)

lemma rows_of_rows: "\<forall>r \<in> set rs. length r = d \<Longrightarrow> rows (of_rows d rs) = rs"
  by (rule nth_equalityI) (simp_all add: rows_def row_of_rows)

lemma wf_of_rows: "\<forall>r \<in> set rs. length r = d \<Longrightarrow> wf_matrix (of_rows d rs)"
proof (induction rs)
  case Nil then show ?case by (simp add: wf_matrix_def of_rows_def)
next
  case (Cons r rs) then show ?case by (simp add: wf_matrix_def of_rows_def)
qed

lemma length_row: "wf_matrix m \<Longrightarrow> i < nrows m \<Longrightarrow> length (row m i) = ncols m"
proof -
  assume w: "wf_matrix m" and i: "i < nrows m"
  have "Suc i * ncols m \<le> nrows m * ncols m"
    using i by (intro mult_le_mono1) simp
  then have "i * ncols m + ncols m \<le> length (elems m)"
    using w by (simp add: wf_matrix_def)
  then show ?thesis by (simp add: row_def)
qed

lemma row_nth:
  assumes "wf_matrix m" "i < nrows m" "j < ncols m"
  shows "row m i ! j = entry m i j"
proof -
  have "i * ncols m \<le> nrows m * ncols m"
    using assms(2) by (intro mult_le_mono1) simp
  then have "i * ncols m \<le> length (elems m)"
    using assms(1) by (simp only: wf_matrix_def)
  then show ?thesis
    using assms(3) by (simp add: row_def entry_def)
qed

lemma rows_length: "wf_matrix m \<Longrightarrow> \<forall>r \<in> set (rows m). length r = ncols m"
  by (auto simp: rows_def length_row)

lemma col_rows:
  "wf_matrix m \<Longrightarrow> j < ncols m \<Longrightarrow> col m j = Inr (map (\<lambda>r. r ! j) (rows m))"
  by (simp add: col_def rows_def row_nth comp_def)

lemma map2_same: "map2 f (map g xs) (map h xs) = map (\<lambda>x. f (g x) (h x)) xs"
  by (induction xs) simp_all

lemma fl_sum_Fin: "foldl fl_add (Fin a) (map Fin xs) = Fin (a + sum_list xs)"
  by (induction xs arbitrary: a) (simp_all add: add.assoc)

lemma fl_mean_Fin: "xs \<noteq> [] \<Longrightarrow> fl_mean (map Fin xs) = Fin (sum_list xs / real (length xs))"
  by (simp add: fl_mean_def fl_sum_def fl_sum_Fin)

lemma fl_add_upper: "upper x \<Longrightarrow> upper y \<Longrightarrow> upper (fl_add x y)"
  by (cases x; cases y) (simp_all add: upper_def)

lemma foldl_upper: "upper a \<Longrightarrow> \<forall>x \<in> set xs. upper x \<Longrightarrow> upper (foldl fl_add a xs)"
  by (induction xs arbitrary: a) (simp_all add: fl_add_upper)

lemma fl_mean_upper:
  assumes "xs \<noteq> []" "\<forall>x \<in> set xs. upper x"
  shows "upper (fl_mean xs)"
proof -
  have "upper (fl_sum xs)"
    unfolding fl_sum_def using assms(2) by (intro foldl_upper) (simp_all add: upper_def)
  moreover have "real (length xs) > 0" using assms(1) by simp
  ultimately show ?thesis
    by (cases "fl_sum xs") (simp_all add: fl_mean_def upper_def)
qed

subsection \<open>The axis-aligned metric\<close>

lemma aam_k_rows:
  "map (\<lambda>x. if is_nan x then Fin 0 else x)
     (map2 (\<lambda>n d. fl_div (Fin n) (Fin d))
        (map2 (\<lambda>a b. max (a - b) 0) (map (\<lambda>r. r ! 0) rs) (map (\<lambda>r. sum_list (drop 1 r)) rs))
        (map (\<lambda>r. r ! 0) rs))
   = map aam_of_row rs"
  by (induction rs) (simp_all add: aam_of_row_def Let_def)

lemma aam_unfold:
  assumes "wf_matrix m" "0 < ncols m"
  shows "axis_aligned_metric m st =
     Inr (fl_mean (map aam_of_row (rows m)),
          map_option (\<lambda>s. s(''aam_k'' \<mapsto> Per_factor (map aam_of_row (rows m)),
                            ''aam'' \<mapsto> Scalar (fl_mean (map aam_of_row (rows m))))) st)"
  by (simp only: axis_aligned_metric_def col_rows [OF assms] sum_cols_from_def Let_def
      aam_k_rows sum.case)

lemma aam_of_row_upper: "upper (aam_of_row r)"
  by (simp add: aam_of_row_def upper_def is_nan_def Let_def)

lemma aam_of_row_spec:
  assumes "r \<noteq> []" "\<forall>x \<in> set r. 0 \<le> x"
  shows "aam_of_row r = Fin (spec_aam_row r)"
proof -
  obtain a t where r: "r = a # t" using assms(1) by (cases r) auto
  have "0 \<le> sum_list t" using assms(2) r by (simp add: sum_list_nonneg)
  then show ?thesis
    by (simp add: r aam_of_row_def spec_aam_row_def is_nan_def Let_def max_def)
qed

text \<open>
  Claim C5. On a table with at least one factor and one latent dimension
  \<open>_axis_aligned_metric\<close> returns a value that is never not-a-number; and on a table of
  non-negative entries (a sorted one in particular) this value is the mean over the factors
  of the largest entry minus the sum of the others, clamped at zero and divided by the
  largest entry, where a zero largest entry (an all-zero row) contributes zero.
\<close>

theorem axis_aligned_metric_spec:
  assumes "wf_matrix m" and "0 < nrows m" and "0 < ncols m"
  shows "\<exists>aam st'. axis_aligned_metric m st = Inr (aam, st') \<and> \<not> is_nan aam
     \<and> ((\<forall>r \<in> set (rows m). \<forall>x \<in> set r. 0 \<le> x) \<longrightarrow>
          aam = Fin (sum_list (map spec_aam_row (rows m)) / real (nrows m)))"
proof -
  let ?k = "map aam_of_row (rows m)"
  have ne: "rows m \<noteq> []" using assms(2) by (simp add: rows_def)
  have "upper (fl_mean ?k)"
    using ne by (intro fl_mean_upper) (simp_all add: aam_of_row_upper)
  then have nn: "\<not> is_nan (fl_mean ?k)"
    by (auto simp: is_nan_def upper_def)
  have sp: "fl_mean ?k = Fin (sum_list (map spec_aam_row (rows m)) / real (nrows m))"
    if nonneg: "\<forall>r \<in> set (rows m). \<forall>x \<in> set r. 0 \<le> x"
  proof -
    have "\<forall>r \<in> set (rows m). r \<noteq> []"
      using rows_length [OF assms(1)] assms(3) by auto
    then have k: "?k = map Fin (map spec_aam_row (rows m))"
      using nonneg by (simp add: aam_of_row_spec)
    have "length (rows m) = nrows m" by (simp add: rows_def)
    then show ?thesis
      unfolding k using ne fl_mean_Fin [of "map spec_aam_row (rows m)"] by simp
  qed
  show ?thesis
    unfolding aam_unfold [OF assms(1,3)] using nn sp by blast
qed

theorem axis_aligned_metric_spec_witness:
  "wf_matrix \<lparr>nrows = 2, ncols = 3, elems = [3, 1, 1, 0, 0, 0]\<rparr>
   \<and> rows \<lparr>nrows = 2, ncols = 3, elems = [3, 1, 1, 0, 0, 0]\<rparr> = [[3, 1, 1], [0, 0, 0]]
   \<and> map_sum id fst
        (axis_aligned_metric \<lparr>nrows = 2, ncols = 3, elems = [3, 1, 1, 0, 0, 0]\<rparr> None)
       = Inr (Fin (1 / 6))"
proof -
  let ?m = "\<lparr>nrows = 2, ncols = 3, elems = [3, 1, 1, 0, 0, 0 :: real]\<rparr>"
  have w: "wf_matrix ?m"
    by (simp add: wf_matrix_def)
  have "[0..<2] = [0, Suc 0]"
    by (simp add: upt_rec)
  then have r: "rows ?m = [[3, 1, 1], [0, 0, 0]]"
    by (simp add: rows_def row_def)
  obtain aam st' where a: "axis_aligned_metric ?m None = Inr (aam, st')"
    and s: "(\<forall>r \<in> set (rows ?m). \<forall>x \<in> set r. 0 \<le> x) \<longrightarrow>
          aam = Fin (sum_list (map spec_aam_row (rows ?m)) / real (nrows ?m))"
    using axis_aligned_metric_spec [of ?m None] w by auto
  have "aam = Fin (1 / 6)"
    using s unfolding r by (simp add: spec_aam_row_def)
  then show ?thesis
    using w r a by simp
qed

subsection \<open>The mutual information gap\<close>

lemma desc_head_Max:
  fixes a :: real
  assumes "sorted_wrt (\<ge>) (a # t)"
  shows "Max (set (a # t)) = a"
  using assms by (intro Max_eqI) auto

lemma desc_top_two:
  fixes cs r :: "real list"
  assumes "sorted_wrt (\<ge>) cs" and "mset cs = mset r" and "2 \<le> length cs"
  shows "cs ! 0 = largest r" and "cs ! 1 = second_largest r"
proof -
  obtain a b u where cs: "cs = a # b # u"
    using assms(3) by (cases cs; cases "tl cs") auto
  have "set cs = set r"
    using assms(2) by (rule mset_eq_setD)
  then have a: "largest r = a"
    using desc_head_Max [of a "b # u"] assms(1) unfolding cs largest_def by simp
  then show "cs ! 0 = largest r"
    by (simp add: cs)
  have "mset (b # u) = mset cs - {#a#}"
    by (simp add: cs)
  also have "\<dots> = mset (remove1 a r)"
    by (simp add: assms(2))
  finally have "set (b # u) = set (remove1 a r)"
    by (rule mset_eq_setD)
  moreover have "Max (set (b # u)) = b"
    using assms(1) unfolding cs by (intro desc_head_Max) simp
  ultimately show "cs ! 1 = second_largest r"
    using a by (simp add: cs second_largest_def largest_def)
qed

lemma sorted_desc_rev_sort: "sorted_wrt (\<ge>) (rev (sort (r :: real list)))"
  by (simp add: sorted_wrt_rev)

lemma sorted_desc_map_max:
  "sorted_wrt (\<ge>) (cs :: real list) \<Longrightarrow> sorted_wrt (\<ge>) (map (\<lambda>x. max x lo) cs)"
  by (induction cs) (auto simp: max_def)

lemma clamp_min_of_rows:
  "clamp_min lo (of_rows d rs) = of_rows d (map (map (\<lambda>x. max x lo)) rs)"
  by (simp add: clamp_min_def of_rows_def map_concat)

lemma mut_info_rows:
  assumes "wf_matrix H_zCv" and "length H_z = ncols H_zCv"
  shows "sorted_mut_info H_z H_zCv =
     Inr (of_rows (ncols H_zCv)
       (map (\<lambda>r. map (\<lambda>x. max x 0) (rev (sort (map2 neg_add r H_z)))) (rows H_zCv)))"
proof -
  let ?mi = "map (\<lambda>r. map2 neg_add r H_z) (rows H_zCv)"
  have "\<forall>r \<in> set ?mi. length r = ncols H_zCv"
    using rows_length [OF assms(1)] assms(2) by auto
  then have "rows (of_rows (ncols H_zCv) ?mi) = ?mi"
    by (rule rows_of_rows)
  then have s: "sort_descending (of_rows (ncols H_zCv) ?mi)
      = of_rows (ncols H_zCv) (map (\<lambda>r. rev (sort r)) ?mi)"
    by (simp only: sort_descending_def ncols_of_rows)
  have m: "mut_info H_z H_zCv = Inr (of_rows (ncols H_zCv) ?mi)"
    using assms(2) by (simp add: mut_info_def)
  show ?thesis
    by (simp only: sorted_mut_info_def m sum.case s clamp_min_of_rows map_map comp_def)
qed

lemma sorted_row_top_two:
  fixes r H_z :: "real list"
  assumes "2 \<le> length r" "length H_z = length r"
  defines "cs \<equiv> map (\<lambda>x. max x 0) (rev (sort (map2 neg_add r H_z)))"
  shows "cs ! 0 - cs ! 1
     = largest (map2 (\<lambda>c h. max (h - c) 0) r H_z)
       - second_largest (map2 (\<lambda>c h. max (h - c) 0) r H_z)"
proof -
  let ?s = "map2 (\<lambda>c h. max (h - c) 0) r H_z"
  have s: "sorted_wrt (\<ge>) cs"
    unfolding cs_def by (intro sorted_desc_map_max sorted_desc_rev_sort)
  have "map (\<lambda>x. max x 0) (map2 neg_add r H_z) = ?s"
    by (simp add: comp_def case_prod_unfold neg_add_def)
  moreover have "mset cs = mset (map (\<lambda>x. max x 0) (map2 neg_add r H_z))"
    unfolding cs_def by (simp only: mset_map mset_rev mset_sort)
  ultimately have m: "mset cs = mset ?s"
    by (simp only:)
  have l: "2 \<le> length cs"
    unfolding cs_def using assms(1,2) by simp
  show ?thesis
    by (simp only: desc_top_two [OF s m l])
qed

lemma mig_unfold:
  assumes "wf_matrix H_zCv" "length H_z = ncols H_zCv" "2 \<le> ncols H_zCv"
    and "length lat_sizes = nrows H_zCv"
    and "sorted_mut_info H_z H_zCv = Inr smi"
  shows "\<exists>st'. mutual_information_gap smi lat_sizes st =
     Inr (fl_mean (map2 (mig_of_row H_z) (rows H_zCv) lat_sizes), st')"
proof -
  let ?rs = "map (\<lambda>r. map (\<lambda>x. max x 0) (rev (sort (map2 neg_add r H_z)))) (rows H_zCv)"
  have smi: "smi = of_rows (ncols H_zCv) ?rs"
    using assms(5) unfolding mut_info_rows [OF assms(1,2)] by (simp only: sum.inject)
  have len: "\<forall>r \<in> set ?rs. length r = ncols H_zCv"
    using rows_length [OF assms(1)] assms(2) by auto
  have w: "wf_matrix smi" and r: "rows smi = ?rs" and c: "ncols smi = ncols H_zCv"
    unfolding smi using len by (simp_all add: wf_of_rows rows_of_rows)
  have c0: "col smi 0 = Inr (map (\<lambda>r. r ! 0) ?rs)" and c1: "col smi 1 = Inr (map (\<lambda>r. r ! 1) ?rs)"
    using col_rows [OF w, of 0] col_rows [OF w, of 1] assms(3) unfolding c r by simp_all
  have d: "map2 (-) (map (\<lambda>r. r ! 0) ?rs) (map (\<lambda>r. r ! 1) ?rs)
      = map (\<lambda>r. largest (map2 (\<lambda>c h. max (h - c) 0) r H_z)
                - second_largest (map2 (\<lambda>c h. max (h - c) 0) r H_z)) (rows H_zCv)"
    (is "?lhs = map ?g _")
  proof -
    have "?lhs = map (\<lambda>r. r ! 0 - r ! 1) ?rs"
      by (simp only: map2_same)
    also have "\<dots> = map (\<lambda>r. map (\<lambda>x. max x 0) (rev (sort (map2 neg_add r H_z))) ! 0
          - map (\<lambda>x. max x 0) (rev (sort (map2 neg_add r H_z))) ! 1) (rows H_zCv)"
      by (simp only: map_map comp_def)
    also have "\<dots> = map ?g (rows H_zCv)"
    proof (rule map_cong [OF refl])
      fix r assume "r \<in> set (rows H_zCv)"
      then have "length r = ncols H_zCv"
        using rows_length [OF assms(1)] by simp
      then show "map (\<lambda>x. max x 0) (rev (sort (map2 neg_add r H_z))) ! 0
          - map (\<lambda>x. max x 0) (rev (sort (map2 neg_add r H_z))) ! 1 = ?g r"
        using assms(2,3) by (intro sorted_row_top_two) simp_all
    qed
    finally show ?thesis .
  qed
  have l: "length (rows H_zCv) = length lat_sizes"
    using assms(4) by (simp add: rows_def)
  have k: "broadcast2 (\<lambda>d h. fl_div (Fin d) h) (map ?g (rows H_zCv)) (map fl_log lat_sizes)
      = Inr (map2 (mig_of_row H_z) (rows H_zCv) lat_sizes)"
    using l by (simp add: broadcast2_def mig_of_row_def zip_map1 zip_map2 comp_def case_prod_unfold)
  show ?thesis
    by (simp only: mutual_information_gap_def c0 c1 d k Let_def sum.case) blast
qed

lemma mig_rows_spec:
  "map2 (mig_of_row H_z) (rows H_zCv) lat_sizes
   = map2 (\<lambda>r n. fl_div (Fin (largest r - second_largest r)) (fl_log n))
       (spec_mi_rows H_z H_zCv) lat_sizes"
  by (simp add: spec_mi_rows_def zip_map1 mig_of_row_def case_prod_unfold)

lemma mig_rows_Fin:
  assumes "\<forall>n \<in> set ns. 2 \<le> n"
  shows "map2 (\<lambda>r n. fl_div (Fin (f r)) (fl_log n)) rs ns
       = map Fin (map2 (\<lambda>r n. f r / ln (real n)) rs ns)"
proof -
  have "fl_div (Fin (f r)) (fl_log n) = Fin (f r / ln (real n))" if "n \<in> set ns" for r n
  proof -
    have "2 \<le> n" using assms that by simp
    then have "ln (real n) \<noteq> 0" by simp
    then show ?thesis using \<open>2 \<le> n\<close> by (simp add: fl_log_def)
  qed
  then show ?thesis
    by (auto simp: set_zip_rightD)
qed

text \<open>
  Claim C4. For marginal entropies \<open>H_z\<close> and conditional entropies \<open>H_zCv\<close> with at least two
  latent dimensions and one cardinality per factor, the table that \<open>compute_metrics\<close>
  sorts and clamps exists, and the MIG that \<open>_mutual_information_gap\<close> computes from it is
  the floating-point mean over the factors of (largest minus second-largest clamped mutual
  information) divided by the logarithm of the cardinality; where every cardinality is at
  least two this is the real number \<open>spec_mig\<close>.
\<close>

theorem mutual_information_gap_spec:
  assumes "wf_matrix H_zCv" and "length H_z = ncols H_zCv" and "2 \<le> ncols H_zCv"
    and "length lat_sizes = nrows H_zCv"
  shows "\<exists>smi mig st'.
      sorted_mut_info H_z H_zCv = Inr smi
    \<and> mutual_information_gap smi lat_sizes st = Inr (mig, st')
    \<and> mig = fl_mean (map2 (\<lambda>r n. fl_div (Fin (largest r - second_largest r)) (fl_log n))
               (spec_mi_rows H_z H_zCv) lat_sizes)
    \<and> (lat_sizes \<noteq> [] \<and> (\<forall>n \<in> set lat_sizes. 2 \<le> n) \<longrightarrow>
         mig = Fin (spec_mig H_z H_zCv lat_sizes))"
proof -
  obtain smi where smi: "sorted_mut_info H_z H_zCv = Inr smi"
    using mut_info_rows [OF assms(1,2)] by simp
  obtain st' where m: "mutual_information_gap smi lat_sizes st =
      Inr (fl_mean (map2 (mig_of_row H_z) (rows H_zCv) lat_sizes), st')"
    using mig_unfold [OF assms smi] by blast
  let ?k = "map2 (\<lambda>r n. fl_div (Fin (largest r - second_largest r)) (fl_log n))
      (spec_mi_rows H_z H_zCv) lat_sizes"
  have "fl_mean ?k = Fin (spec_mig H_z H_zCv lat_sizes)"
    if ne: "lat_sizes \<noteq> []" and big: "\<forall>n \<in> set lat_sizes. 2 \<le> n"
  proof -
    let ?q = "map2 (\<lambda>r n. (largest r - second_largest r) / ln (real n))
        (spec_mi_rows H_z H_zCv) lat_sizes"
    have l: "length ?q = length lat_sizes"
      using assms(4) by (simp add: spec_mi_rows_def rows_def)
    then have "?q \<noteq> []"
      using ne by auto
    then have "fl_mean (map Fin ?q) = Fin (sum_list ?q / real (length ?q))"
      by (rule fl_mean_Fin)
    then show ?thesis
      unfolding mig_rows_Fin [OF big] spec_mig_def l .
  qed
  then show ?thesis
    using smi m unfolding mig_rows_spec by blast
qed

theorem mutual_information_gap_spec_witness:
  "wf_matrix \<lparr>nrows = 2, ncols = 2, elems = [1, 1, 2, 0]\<rparr>
   \<and> (\<exists>smi. sorted_mut_info [2, 1] \<lparr>nrows = 2, ncols = 2, elems = [1, 1, 2, 0]\<rparr> = Inr smi
        \<and> map_sum id fst (mutual_information_gap smi [2, 3] None)
            = Inr (Fin ((1 / ln 2 + 1 / ln 3) / 2)))"
proof -
  let ?m = "\<lparr>nrows = 2, ncols = 2, elems = [1, 1, 2, 0 :: real]\<rparr>"
  have w: "wf_matrix ?m"
    by (simp add: wf_matrix_def)
  have "[0..<2] = [0, Suc 0]"
    by (simp add: upt_rec)
  then have r: "rows ?m = [[1, 1], [2, 0]]"
    by (simp add: rows_def row_def)
  obtain smi mig st' where s: "sorted_mut_info [2, 1] ?m = Inr smi"
    and g: "mutual_information_gap smi [2, 3] None = Inr (mig, st')"
    and v: "[2, 3 :: nat] \<noteq> [] \<and> (\<forall>n \<in> set [2, 3 :: nat]. 2 \<le> n) \<longrightarrow>
          mig = Fin (spec_mig [2, 1] ?m [2, 3])"
    using mutual_information_gap_spec [of ?m "[2, 1]" "[2, 3]" None] w by auto
  have "spec_mig [2, 1] ?m [2, 3] = (1 / ln 2 + 1 / ln 3) / 2"
    by (simp add: spec_mig_def spec_mi_rows_def r largest_def second_largest_def)
  then have "mig = Fin ((1 / ln 2 + 1 / ln 3) / 2)"
    using v by simp
  then show ?thesis
    using w s g by simp
qed

subsection \<open>The entropy estimator\<close>

lemma map2_add_nth:
  fixes H :: "real list"
  assumes "length H = d"
  shows "map2 (+) H (map g [0..<d]) = map (\<lambda>j. H ! j + g j) [0..<d]"
  using assms by (intro nth_equalityI) simp_all

lemma sum_upt_split:
  fixes g :: "nat \<Rightarrow> real"
  assumes "k \<le> m" "m \<le> n"
  shows "sum_list (map g [k..<m]) + sum_list (map g [m..<n]) = sum_list (map g [k..<n])"
proof -
  have "[k..<n] = [k..<m] @ [m..<n]"
    using assms by (metis le_Suc_ex upt_add_eq_append)
  then show ?thesis by simp
qed

lemma entropy_loop_sum:
  assumes "0 < b" and "length H = d"
  shows "entropy_loop f d n b k H = map (\<lambda>j. H ! j + sum_list (map (f j) [k..<n])) [0..<d]"
  using assms
proof (induction f d n b k H rule: entropy_loop.induct)
  case (1 f d n b k H)
  show ?case
  proof (cases "n \<le> k")
    case True
    then have "entropy_loop f d n b k H = H"
      by simp
    moreover have "map (\<lambda>j. H ! j + sum_list (map (f j) [k..<n])) [0..<d] = H"
      using True "1.prems"(2) map_nth [of H] by simp
    ultimately show ?thesis by simp
  next
    case False
    let ?g = "\<lambda>j. sum_list (map (f j) [k..<min (k + b) n])"
    let ?H = "map2 (+) H (map ?g [0..<d])"
    have H': "?H = map (\<lambda>j. H ! j + ?g j) [0..<d]"
      using "1.prems"(2) by (rule map2_add_nth)
    have step: "entropy_loop f d n b k H = entropy_loop f d n b (k + b) ?H"
      using False "1.prems"(1) by (subst entropy_loop.simps) simp
    have "entropy_loop f d n b (k + b) ?H
        = map (\<lambda>j. ?H ! j + sum_list (map (f j) [k + b..<n])) [0..<d]"
      using False "1.prems" by (intro "1.IH") simp_all
    also have "\<dots> = map (\<lambda>j. H ! j + sum_list (map (f j) [k..<n])) [0..<d]"
    proof (rule map_cong [OF refl])
      fix j assume "j \<in> set [0..<d]"
      then have j: "j < d" by simp
      have "?g j + sum_list (map (f j) [k + b..<n]) = sum_list (map (f j) [k..<n])"
      proof (cases "k + b \<le> n")
        case True
        then show ?thesis
          using sum_upt_split [of k "k + b" n "f j"] by (simp add: min_def)
      next
        case False
        then show ?thesis by (simp add: min_def)
      qed
      then show "?H ! j + sum_list (map (f j) [k + b..<n]) = H ! j + sum_list (map (f j) [k..<n])"
        unfolding H' using j by simp
    qed
    finally show ?thesis
      using step by simp
  qed
qed

lemma entropy_loop_all:
  assumes "0 < b"
  shows "entropy_loop f d n b 0 (replicate d 0) = map (\<lambda>j. sum_list (map (f j) [0..<n])) [0..<d]"
  using entropy_loop_sum [OF assms, of "replicate d 0" d f n 0] by simp

lemma estimate_batched_at_once:
  assumes "0 < b"
  shows "estimate_latent_entropies_batched ld b perm samples_zCx params_zCX n_samples
       = estimate_at_once ld perm samples_zCx params_zCX n_samples"
proof -
  have b: "(b = 0) = False"
    using assms by simp
  show ?thesis
    unfolding estimate_latent_entropies_batched_def estimate_at_once_def Let_def
      entropy_loop_all [OF assms] b if_False map_map comp_def ..
qed

lemma estimate_at_once_spec:
  assumes perm: "mset perm = mset [0..<nrows samples_zCx]"
    and m: "nrows (fst params_zCX) = nrows samples_zCx" "ncols (fst params_zCX) = ncols samples_zCx"
    and v: "nrows (snd params_zCX) = nrows samples_zCx" "ncols (snd params_zCX) = ncols samples_zCx"
    and n: "0 < n_samples" "n_samples \<le> nrows samples_zCx"
  shows "estimate_at_once ld perm samples_zCx params_zCX n_samples
       = Inr (map (\<lambda>j. Fin (spec_entropy ld perm samples_zCx params_zCX n_samples j))
               [0..<ncols samples_zCx])"
proof -
  let ?N = "nrows samples_zCx" and ?D = "ncols samples_zCx"
  have "set perm = set [0..<?N]"
    using perm by (rule mset_eq_setD)
  then have "\<forall>i \<in> set (take n_samples perm). i < ?N"
    by (auto dest: in_set_takeD)
  then have sel: "index_select samples_zCx (take n_samples perm)
      = Inr (of_rows ?D (map (row samples_zCx) (take n_samples perm)))"
    by (auto simp: index_select_def)
  have "length perm = ?N"
    using perm by (metis length_upt minus_nat.diff_0 size_mset)
  then have len: "length (take n_samples perm) = n_samples"
    using n(2) by simp
  let ?z = "\<lparr>nrows = ?D, ncols = n_samples,
      elems = concat (map (row samples_zCx) (take n_samples perm))\<rparr>"
  have vw: "view (of_rows ?D (map (row samples_zCx) (take n_samples perm))) ?D n_samples = Inr ?z"
    using len by (simp add: view_def of_rows_def)
  have e1: "expand (fst params_zCX) ?N ?D = Inr (entry (fst params_zCX))"
    and e2: "expand (snd params_zCX) ?N ?D = Inr (entry (snd params_zCX))"
    using m v by (simp_all add: expand_def)
  have lg: "math_log ?N = Inr (ln (real ?N))"
    using n by (simp add: math_log_def)
  have q: "sum_list (map (neg_log_q_z ld ?N (ln (real ?N)) (entry (fst params_zCX))
        (entry (snd params_zCX)) ?z j) [0..<n_samples]) / real n_samples
      = spec_entropy ld perm samples_zCx params_zCX n_samples j" for j
    unfolding neg_log_q_z_def [abs_def] spec_entropy_def entry_def m v by simp
  have "fl_div (Fin x) (Fin (real n_samples)) = Fin (x / real n_samples)" for x
    using n(1) by simp
  then show ?thesis
    unfolding estimate_at_once_def sel vw e1 e2 lg sum.case q [symmetric] by simp
qed

text \<open>
  Claim C6. For every two minibatch sizes (both positive) \<open>_estimate_latent_entropies\<close>
  returns the same result, an error included; and where the permutation, the shapes of the
  posterior statistics and the number of pivots (positive, at most the number of examples)
  let it return, the estimate of every dimension is the average over the pivots of
  \<open>log N\<close> minus the \<open>logsumexp\<close> over the \<open>N\<close> posterior log-densities.
\<close>

theorem minibatch_invariance:
  assumes "0 < b" and "0 < b'"
  shows "estimate_latent_entropies_batched ld b perm samples_zCx params_zCX n_samples
       = estimate_latent_entropies_batched ld b' perm samples_zCx params_zCX n_samples
     \<and> (mset perm = mset [0..<nrows samples_zCx]
        \<and> nrows (fst params_zCX) = nrows samples_zCx \<and> ncols (fst params_zCX) = ncols samples_zCx
        \<and> nrows (snd params_zCX) = nrows samples_zCx \<and> ncols (snd params_zCX) = ncols samples_zCx
        \<and> 0 < n_samples \<and> n_samples \<le> nrows samples_zCx \<longrightarrow>
          estimate_latent_entropies_batched ld b perm samples_zCx params_zCX n_samples
          = Inr (map (\<lambda>j. Fin (spec_entropy ld perm samples_zCx params_zCX n_samples j))
                  [0..<ncols samples_zCx]))"
  using assms by (simp add: estimate_batched_at_once estimate_at_once_spec)

theorem minibatch_invariance_witness:
  "(0 :: nat) < 10 \<and> (0 :: nat) < 3
   \<and> mset [1, 0] = mset [0..<2]
   \<and> estimate_latent_entropies_batched log_density_gaussian 10 [1, 0]
         \<lparr>nrows = 2, ncols = 1, elems = [0, 1]\<rparr>
         (\<lparr>nrows = 2, ncols = 1, elems = [0, 1]\<rparr>, \<lparr>nrows = 2, ncols = 1, elems = [0, 0]\<rparr>) 2
     = estimate_latent_entropies_batched log_density_gaussian 3 [1, 0]
         \<lparr>nrows = 2, ncols = 1, elems = [0, 1]\<rparr>
         (\<lparr>nrows = 2, ncols = 1, elems = [0, 1]\<rparr>, \<lparr>nrows = 2, ncols = 1, elems = [0, 0]\<rparr>) 2
   \<and> estimate_latent_entropies_batched log_density_gaussian 10 [1, 0]
         \<lparr>nrows = 2, ncols = 1, elems = [0, 1]\<rparr>
         (\<lparr>nrows = 2, ncols = 1, elems = [0, 1]\<rparr>, \<lparr>nrows = 2, ncols = 1, elems = [0, 0]\<rparr>) 2
     = Inr (map (\<lambda>j. Fin (spec_entropy log_density_gaussian [1, 0]
                \<lparr>nrows = 2, ncols = 1, elems = [0, 1]\<rparr>
                (\<lparr>nrows = 2, ncols = 1, elems = [0, 1]\<rparr>,
                 \<lparr>nrows = 2, ncols = 1, elems = [0, 0]\<rparr>) 2 j)) [0..<1])"
proof -
  have u: "[0..<2] = [0, Suc 0]"
    by (simp add: upt_rec)
  have p: "mset [1, 0] = mset [0..<2]"
    unfolding u by simp
  show ?thesis
    using p minibatch_invariance [where b = 10 and b' = 3 and perm = "[1, 0]"
        and samples_zCx = "\<lparr>nrows = 2, ncols = 1, elems = [0, 1]\<rparr>"
        and params_zCX = "(\<lparr>nrows = 2, ncols = 1, elems = [0, 1]\<rparr>,
                          \<lparr>nrows = 2, ncols = 1, elems = [0, 0]\<rparr>)"
        and n_samples = 2 and ld = log_density_gaussian]
    by auto
qed

subsection \<open>Slices of a factorial dataset\<close>

lemma filter_upt_interval:
  "filter (\<lambda>n. a \<le> n \<and> n < b) [0..<m] = [a..<min b m]"
  by (rule sorted_distinct_set_unique) (auto simp: sorted_wrt_filter)

lemma upt_blocks: "[0..<s * p] = concat (map (\<lambda>b. map (\<lambda>n. b * p + n) [0..<p]) [0..<s])"
proof (induction s)
  case 0
  then show ?case by simp
next
  case (Suc s)
  have "[0..<Suc s * p] = [0..<s * p] @ [s * p..<s * p + p]"
    by (metis add.commute le_add1 mult_Suc upt_add_eq_append zero_le)
  moreover have "[s * p..<s * p + p] = map (\<lambda>n. s * p + n) [0..<p]"
    by (simp add: map_add_upt add.commute)
  ultimately show ?case using Suc by simp
qed

lemma digit_examples_first:
  assumes "v < s"
  shows "digit_examples (s # sh) 0 v = [v * prod_list sh..<Suc v * prod_list sh]"
proof -
  let ?P = "prod_list sh"
  have "filter (\<lambda>n. dec (s # sh) n ! 0 = v) [0..<s * ?P]
      = filter (\<lambda>n. v * ?P \<le> n \<and> n < Suc v * ?P) [0..<s * ?P]"
  proof (rule filter_cong [OF refl])
    fix n assume "n \<in> set [0..<s * ?P]"
    then have n: "n < s * ?P" by simp
    then have P: "0 < ?P" by (auto intro: Nat.gr0I)
    have "n div ?P < s"
      using n P by (simp add: less_mult_imp_div_less mult.commute)
    then have "dec (s # sh) n ! 0 = n div ?P"
      by (simp add: dec_Cons)
    moreover have "(n div ?P = v) = (v * ?P \<le> n \<and> n < Suc v * ?P)"
    proof
      assume "n div ?P = v"
      then show "v * ?P \<le> n \<and> n < Suc v * ?P"
        using P dividend_less_div_times [of ?P n] by (auto simp: add.commute)
    next
      assume "v * ?P \<le> n \<and> n < Suc v * ?P"
      then show "n div ?P = v"
        by (intro div_nat_eqI) (simp_all add: mult.commute)
    qed
    ultimately show "(dec (s # sh) n ! 0 = v) = (v * ?P \<le> n \<and> n < Suc v * ?P)"
      by simp
  qed
  moreover have "Suc v * ?P \<le> s * ?P"
    using assms by (intro mult_le_mono1) simp
  ultimately show ?thesis
    by (simp add: digit_examples_def filter_upt_interval min_def)
qed

lemma dec_nth_Suc: "dec (s # sh) n ! Suc k = dec sh n ! k"
  by (simp add: dec_Cons)

lemma digit_examples_later:
  "digit_examples (s # sh) (Suc k) v
   = concat (map (\<lambda>b. map (\<lambda>n. b * prod_list sh + n) (digit_examples sh k v)) [0..<s])"
proof -
  let ?P = "prod_list sh"
  have "filter (\<lambda>n. dec sh n ! k = v) (map (\<lambda>n. b * ?P + n) [0..<?P])
      = map (\<lambda>n. b * ?P + n) (filter (\<lambda>n. dec sh n ! k = v) [0..<?P])" for b
    by (simp add: filter_map comp_def dec_shift)
  then show ?thesis
    by (simp add: digit_examples_def upt_blocks [of s ?P] filter_concat comp_def dec_nth_Suc)
qed

lemma length_digit_examples:
  assumes "k < length ss" and "v < ss ! k"
  shows "length (digit_examples ss k v) = prod_list ss div ss ! k"
  using assms
proof (induction ss arbitrary: k)
  case Nil
  then show ?case by simp
next
  case (Cons s sh)
  show ?case
  proof (cases k)
    case 0
    then show ?thesis
      using Cons.prems by (simp add: digit_examples_first)
  next
    case (Suc k')
    then have k': "k' < length sh" and v: "v < sh ! k'"
      using Cons.prems by simp_all
    have "sh ! k' dvd prod_list sh"
      using k' by (metis dvd_triv_right suffix_dvd dvd_mult_left mult.commute)
    moreover have "length (digit_examples (s # sh) (Suc k') v) = s * length (digit_examples sh k' v)"
      by (simp add: digit_examples_later length_concat comp_def sum_list_triv)
    ultimately show ?thesis
      using Cons.IH [OF k' v] Suc by (simp add: div_mult_swap)
  qed
qed

lemma concat_chunks:
  assumes "b * d \<le> length xs" and "a \<le> b"
  shows "concat (map (\<lambda>n. take d (drop (n * d) xs)) [a..<b]) = take ((b - a) * d) (drop (a * d) xs)"
  using assms
proof (induction b)
  case 0
  then show ?case by simp
next
  case (Suc b)
  show ?case
  proof (cases "a = Suc b")
    case True
    then show ?thesis by simp
  next
    case False
    then have ab: "a \<le> b" using Suc.prems by simp
    have "b * d \<le> length xs" using Suc.prems by simp
    then have IH: "concat (map (\<lambda>n. take d (drop (n * d) xs)) [a..<b])
        = take ((b - a) * d) (drop (a * d) xs)"
      using ab by (rule Suc.IH)
    have "(Suc b - a) * d = (b - a) * d + d"
      using ab by (simp add: Suc_diff_le)
    then have "take ((Suc b - a) * d) (drop (a * d) xs)
        = take ((b - a) * d) (drop (a * d) xs) @ take d (drop ((b - a) * d) (drop (a * d) xs))"
      by (simp only: take_add)
    moreover have "(b - a) * d + a * d = b * d"
      using ab by (simp flip: add_mult_distrib)
    then have "drop ((b - a) * d) (drop (a * d) xs) = drop (b * d) xs"
      by (simp only: drop_drop)
    moreover have "[a..<Suc b] = [a..<b] @ [b]"
      using ab by simp
    ultimately show ?thesis
      using IH by (simp only: map_append concat_append list.map concat.simps append_Nil2)
  qed
qed

lemma concat_concat_map: "concat (concat (map f xs)) = concat (map (\<lambda>x. concat (f x)) xs)"
  by (induction xs) simp_all

lemma chunk_of_block:
  assumes "n < p"
  shows "take d (drop (n * d) (take (p * d) (drop (b * p * d) xs)))
       = take d (drop ((b * p + n) * d) xs)"
proof -
  have "Suc n * d \<le> p * d"
    using assms by (intro mult_le_mono1) simp
  then have "min d (p * d - n * d) = d"
    by simp
  moreover have "n * d + b * p * d = (b * p + n) * d"
    by (simp add: algebra_simps)
  ultimately show ?thesis
    by (simp only: drop_take take_take drop_drop)
qed

lemma slice_axis_examples:
  assumes "k < length ss" and "v < ss ! k" and "length xs = prod_list ss * d"
  shows "slice_axis (ss @ [d]) k v xs
       = concat (map (\<lambda>n. take d (drop (n * d) xs)) (digit_examples ss k v))"
  using assms
proof (induction ss arbitrary: k xs)
  case Nil
  then show ?case by simp
next
  case (Cons s sh)
  let ?P = "prod_list sh"
  show ?case
  proof (cases k)
    case 0
    then have v: "v < s" using Cons.prems by simp
    have "Suc v * ?P \<le> s * ?P"
      using v by (intro mult_le_mono1) simp
    then have "Suc v * ?P * d \<le> length xs"
      using Cons.prems(3) by simp
    then have "concat (map (\<lambda>n. take d (drop (n * d) xs)) [v * ?P..<Suc v * ?P])
        = take ((Suc v * ?P - v * ?P) * d) (drop (v * ?P * d) xs)"
      by (intro concat_chunks) simp_all
    then show ?thesis
      using 0 v by (simp add: digit_examples_first mult.assoc)
  next
    case (Suc k')
    then have k': "k' < length sh" and v: "v < sh ! k'"
      using Cons.prems by simp_all
    have blk: "slice_axis (sh @ [d]) k' v (take (?P * d) (drop (b * ?P * d) xs))
        = concat (map (\<lambda>n. take d (drop ((b * ?P + n) * d) xs)) (digit_examples sh k' v))"
      if "b < s" for b
    proof -
      have "Suc b * ?P \<le> s * ?P"
        using that by (intro mult_le_mono1) simp
      then have "(b * ?P + ?P) * d \<le> s * ?P * d"
        by (intro mult_le_mono1) simp
      then have "b * ?P * d + ?P * d \<le> length (xs)"
        using Cons.prems(3) by (simp add: add_mult_distrib)
      then have "length (take (?P * d) (drop (b * ?P * d) xs)) = ?P * d"
        by simp
      then have "slice_axis (sh @ [d]) k' v (take (?P * d) (drop (b * ?P * d) xs))
          = concat (map (\<lambda>n. take d (drop (n * d) (take (?P * d) (drop (b * ?P * d) xs))))
              (digit_examples sh k' v))"
        using k' v by (intro Cons.IH)
      also have "\<dots> = concat (map (\<lambda>n. take d (drop ((b * ?P + n) * d) xs)) (digit_examples sh k' v))"
      proof -
        have "\<forall>n \<in> set (digit_examples sh k' v). n < ?P"
          by (simp add: digit_examples_def)
        then have "map (\<lambda>n. take d (drop (n * d) (take (?P * d) (drop (b * ?P * d) xs))))
              (digit_examples sh k' v)
            = map (\<lambda>n. take d (drop ((b * ?P + n) * d) xs)) (digit_examples sh k' v)"
          by (intro map_cong [OF refl] chunk_of_block) simp
        then show ?thesis by (simp only:)
      qed
      finally show ?thesis .
    qed
    have "slice_axis ((s # sh) @ [d]) (Suc k') v xs
        = concat (map (\<lambda>b. slice_axis (sh @ [d]) k' v (take (?P * d) (drop (b * ?P * d) xs))) [0..<s])"
      by (simp add: mult.assoc)
    also have "\<dots> = concat (map (\<lambda>b. concat (map (\<lambda>n. take d (drop ((b * ?P + n) * d) xs))
          (digit_examples sh k' v))) [0..<s])"
      using blk by (intro arg_cong [where f = concat] map_cong [OF refl]) simp
    also have "\<dots> = concat (map (\<lambda>n. take d (drop (n * d) xs)) (digit_examples (s # sh) (Suc k') v))"
      by (simp add: digit_examples_later map_concat comp_def concat_concat_map)
    finally show ?thesis
      using Suc by simp
  qed
qed

subsection \<open>The conditional entropies\<close>

lemma values_loop_ok:
  assumes "\<forall>i \<in> set is. est i = Inr (g i) \<and> length (g i) = d" and "length H = d"
  shows "values_loop est c is H
       = Inr (map (\<lambda>j. foldl fl_add (H ! j) (map (\<lambda>i. fl_div (g i ! j) (Fin (real c))) is)) [0..<d])"
  using assms
proof (induction "is" arbitrary: H)
  case Nil
  then show ?case
    using map_nth [of H] by simp
next
  case (Cons i "is")
  let ?H = "map2 fl_add H (map (\<lambda>x. fl_div x (Fin (real c))) (g i))"
  have l: "length ?H = d"
    using Cons.prems by simp
  have n: "?H ! j = fl_add (H ! j) (fl_div (g i ! j) (Fin (real c)))" if "j < d" for j
    using that Cons.prems by simp
  have "values_loop est c (i # is) H = values_loop est c is ?H"
    using Cons.prems(1) by simp
  also have "\<dots> = Inr (map (\<lambda>j. foldl fl_add (?H ! j)
      (map (\<lambda>i. fl_div (g i ! j) (Fin (real c))) is)) [0..<d])"
    using Cons.prems(1) l by (intro Cons.IH) simp_all
  also have "\<dots> = Inr (map (\<lambda>j. foldl fl_add (H ! j)
      (map (\<lambda>i. fl_div (g i ! j) (Fin (real c))) (i # is))) [0..<d])"
    using n by simp
  finally show ?case .
qed

lemma factors_loop_ok:
  assumes est: "\<forall>k < length ls. \<forall>v < ls ! k. est k (ls ! k) v = Inr (h k v) \<and> length (h k v) = d"
    and len: "length ns = length ls" "length H = length ls"
    and zero: "\<forall>k < length ls. m \<le> k \<longrightarrow> H ! k = replicate d (Fin 0)"
    and m: "m \<le> length ls"
  shows "factors_loop est (zip [m..<length ls] (zip (drop m ls) (drop m ns))) H
       = Inr (take m H @ map (factor_row h ls d) [m..<length ls])"
  using zero m len(2)
proof (induction "length ls - m" arbitrary: m H)
  case 0
  then show ?case by simp
next
  case (Suc x)
  then have m: "m < length ls" by simp
  have z: "zip [m..<length ls] (zip (drop m ls) (drop m ns))
      = (m, ls ! m, ns ! m) # zip [Suc m..<length ls] (zip (drop (Suc m) ls) (drop (Suc m) ns))"
    using m len(1) by (simp add: upt_conv_Cons Cons_nth_drop_Suc [symmetric])
  have "values_loop (est m (ls ! m)) (ls ! m) [0..<ls ! m] (H ! m)
      = Inr (map (\<lambda>j. foldl fl_add (H ! m ! j)
          (map (\<lambda>i. fl_div (h m i ! j) (Fin (real (ls ! m)))) [0..<ls ! m])) [0..<d])"
    using est m Suc.prems(1) by (intro values_loop_ok) simp_all
  also have "\<dots> = Inr (factor_row h ls d m)"
    using m Suc.prems(1) by (simp add: factor_row_def fl_sum_def)
  finally have v: "values_loop (est m (ls ! m)) (ls ! m) [0..<ls ! m] (H ! m)
      = Inr (factor_row h ls d m)" .
  let ?H = "H[m := factor_row h ls d m]"
  have "factors_loop est (zip [Suc m..<length ls] (zip (drop (Suc m) ls) (drop (Suc m) ns))) ?H
      = Inr (take (Suc m) ?H @ map (factor_row h ls d) [Suc m..<length ls])"
    using Suc.hyps(2) Suc.prems m by (intro Suc.hyps(1)) simp_all
  moreover have "take (Suc m) ?H = take m H @ [factor_row h ls d m]"
    using m Suc.prems(3) by (simp add: take_Suc_conv_app_nth)
  moreover have "[m..<length ls] = m # [Suc m..<length ls]"
    using m by (simp add: upt_conv_Cons)
  ultimately show ?case
    unfolding z using v by simp
qed

lemma prod_list_remove_nth:
  fixes ss :: "nat list"
  assumes "k < length ss" and "0 < ss ! k"
  shows "prod_list (take k ss @ drop (Suc k) ss) = prod_list ss div ss ! k"
proof -
  have "ss = take k ss @ ss ! k # drop (Suc k) ss"
    using assms(1) by (simp add: id_take_nth_drop)
  then have "prod_list ss = prod_list (take k ss @ ss ! k # drop (Suc k) ss)"
    by simp
  also have "\<dots> = ss ! k * prod_list (take k ss @ drop (Suc k) ss)"
    by (simp add: ac_simps)
  finally have "prod_list ss = ss ! k * prod_list (take k ss @ drop (Suc k) ss)" .
  then show ?thesis
    using assms(2) by simp
qed

lemma factor_examples_digit:
  "ls \<noteq> [] \<Longrightarrow> factor_examples ls k v = digit_examples ls k v"
  by (simp add: factor_examples_def digit_examples_def spec_decode_dec)

lemma factor_slice_spec:
  assumes ne: "ls \<noteq> []" and k: "k < length ls" and v: "v < ls ! k"
    and sh: "shape t = ls @ [d]" and len: "length (entries t) = prod_list ls * d"
  shows "factor_slice t (length ls) k v (prod_list ls div ls ! k) d
       = Inr (spec_slice ls d k v (entries t))"
proof -
  have i: "index_factor t (length ls) k v
      = Inr \<lparr>shape = take k ls @ drop (Suc k) ls @ [d],
              entries = slice_axis (ls @ [d]) k v (entries t)\<rparr>"
    using k v by (simp add: index_factor_def sh nth_append)
  have p: "prod_list (take k ls @ drop (Suc k) ls @ [d]) = prod_list ls div ls ! k * d"
    using prod_list_remove_nth [OF k] v by simp
  have "slice_axis (ls @ [d]) k v (entries t)
      = concat (map (\<lambda>n. take d (drop (n * d) (entries t))) (factor_examples ls k v))"
    using k v len ne by (simp add: slice_axis_examples factor_examples_digit)
  moreover have "length (factor_examples ls k v) = prod_list ls div ls ! k"
    using k v ne by (simp add: length_digit_examples factor_examples_digit)
  ultimately show ?thesis
    unfolding factor_slice_def i view_matrix_def spec_slice_def
    by (simp only: sum.case tensor.select_convs p) simp
qed

lemma estimate_length:
  assumes "estimate_latent_entropies ld perm m p n = Inr h"
  shows "length h = ncols m"
proof -
  have e: "estimate_at_once ld perm m p n = Inr h"
    using assms by (simp add: estimate_latent_entropies_def estimate_batched_at_once)
  obtain sel where 1: "index_select m (take n perm) = Inr sel"
    using e unfolding estimate_at_once_def by (cases "index_select m (take n perm)") simp_all
  obtain z where 2: "view sel (ncols m) n = Inr z"
    using e unfolding estimate_at_once_def 1 sum.case by (cases "view sel (ncols m) n") simp_all
  obtain mean where 3: "expand (fst p) (nrows m) (ncols m) = Inr mean"
    using e unfolding estimate_at_once_def 1 2 sum.case
    by (cases "expand (fst p) (nrows m) (ncols m)") simp_all
  obtain log_var where 4: "expand (snd p) (nrows m) (ncols m) = Inr log_var"
    using e unfolding estimate_at_once_def 1 2 3 sum.case
    by (cases "expand (snd p) (nrows m) (ncols m)") simp_all
  obtain log_N where 5: "math_log (nrows m) = Inr log_N"
    using e unfolding estimate_at_once_def 1 2 3 4 sum.case by (cases "math_log (nrows m)") simp_all
  show ?thesis
    using e unfolding estimate_at_once_def 1 2 3 4 5 sum.case by auto
qed

text \<open>
  Claim C7. On a dense factorial dataset (the tensors of samples and posterior statistics
  have the shape of the cardinalities followed by the latent dimension), where the
  estimator returns \<open>h k v\<close> on the examples whose factor \<open>k\<close> equals \<open>v\<close>, the row of
  \<open>_estimate_H_zCv\<close> for the factor \<open>k\<close> is, in every dimension, the sum over the values
  \<open>v\<close> of \<open>h k v\<close> divided by the cardinality of the factor; and every such slice has as
  many examples as the dataset size divided by the cardinality.
\<close>

theorem estimate_H_zCv_spec:
  assumes ne: "lat_sizes \<noteq> []" and names: "length lat_names = length lat_sizes"
    and s: "shape samples_zCx = lat_sizes @ [latent_dim]"
      "length (entries samples_zCx) = prod_list lat_sizes * latent_dim"
    and m: "shape (fst params_zCx) = lat_sizes @ [latent_dim]"
      "length (entries (fst params_zCx)) = prod_list lat_sizes * latent_dim"
    and l: "shape (snd params_zCx) = lat_sizes @ [latent_dim]"
      "length (entries (snd params_zCx)) = prod_list lat_sizes * latent_dim"
    and est: "\<forall>k < length lat_sizes. \<forall>v < lat_sizes ! k.
        estimate_latent_entropies ld (perms k v)
          (spec_slice lat_sizes latent_dim k v (entries samples_zCx))
          (spec_slice lat_sizes latent_dim k v (entries (fst params_zCx)),
           spec_slice lat_sizes latent_dim k v (entries (snd params_zCx))) 10000
        = Inr (h k v)"
  shows "estimate_H_zCv ld perms samples_zCx params_zCx lat_sizes lat_names
       = Inr (map (\<lambda>k. map (\<lambda>j. fl_sum (map (\<lambda>v. fl_div (h k v ! j) (Fin (real (lat_sizes ! k))))
                                       [0..<lat_sizes ! k]))
                         [0..<latent_dim])
               [0..<length lat_sizes])
     \<and> (\<forall>k < length lat_sizes. \<forall>v < lat_sizes ! k.
          nrows (spec_slice lat_sizes latent_dim k v (entries samples_zCx))
          = prod_list lat_sizes div lat_sizes ! k)"
proof
  let ?K = "length lat_sizes" and ?N = "prod_list lat_sizes"
  let ?est = "slice_entropies ld perms samples_zCx params_zCx ?K ?N latent_dim"
  have e: "\<forall>k < ?K. \<forall>v < lat_sizes ! k.
      ?est k (lat_sizes ! k) v = Inr (h k v) \<and> length (h k v) = latent_dim"
  proof (intro allI impI)
    fix k v assume k: "k < ?K" and v: "v < lat_sizes ! k"
    have r: "estimate_latent_entropies ld (perms k v)
          (spec_slice lat_sizes latent_dim k v (entries samples_zCx))
          (spec_slice lat_sizes latent_dim k v (entries (fst params_zCx)),
           spec_slice lat_sizes latent_dim k v (entries (snd params_zCx))) 10000
        = Inr (h k v)"
      using est k v by blast
    then have "length (h k v) = ncols (spec_slice lat_sizes latent_dim k v (entries samples_zCx))"
      by (rule estimate_length)
    then have "length (h k v) = latent_dim"
      by (simp add: spec_slice_def)
    moreover have "?est k (lat_sizes ! k) v = Inr (h k v)"
      unfolding slice_entropies_def factor_slice_spec [OF ne k v s]
        factor_slice_spec [OF ne k v m] factor_slice_spec [OF ne k v l] sum.case
      by (rule r)
    ultimately show "?est k (lat_sizes ! k) v = Inr (h k v) \<and> length (h k v) = latent_dim"
      by simp
  qed
  let ?H = "replicate ?K (replicate latent_dim (Fin 0))"
  have "factors_loop ?est (zip [0..<?K] (zip (drop 0 lat_sizes) (drop 0 lat_names))) ?H
      = Inr (take 0 ?H @ map (factor_row h lat_sizes latent_dim) [0..<?K])"
    using e names by (intro factors_loop_ok) simp_all
  then show "estimate_H_zCv ld perms samples_zCx params_zCx lat_sizes lat_names
       = Inr (map (\<lambda>k. map (\<lambda>j. fl_sum (map (\<lambda>v. fl_div (h k v ! j) (Fin (real (lat_sizes ! k))))
                                       [0..<lat_sizes ! k]))
                         [0..<latent_dim])
               [0..<length lat_sizes])"
    using ne s(1) by (simp add: estimate_H_zCv_def Let_def factor_row_def [abs_def])
next
  show "\<forall>k < length lat_sizes. \<forall>v < lat_sizes ! k.
      nrows (spec_slice lat_sizes latent_dim k v (entries samples_zCx))
      = prod_list lat_sizes div lat_sizes ! k"
    using ne by (simp add: spec_slice_def factor_examples_digit length_digit_examples)
qed

theorem estimate_H_zCv_spec_witness:
  "estimate_H_zCv log_density_gaussian (\<lambda>k v. [0..<10000]) example_tensor
       (example_tensor, example_tensor) [10000, 10000] [''shape'', ''scale'']
     = Inr (map (\<lambda>k. map (\<lambda>j. fl_sum (map (\<lambda>v. fl_div (example_entropy k v ! j)
                                              (Fin (real ([10000, 10000] ! k))))
                                     [0..<[10000, 10000] ! k]))
                       [0..<1])
             [0..<length [10000, 10000 :: nat]])
   \<and> nrows (spec_slice [10000, 10000] 1 0 0 (entries example_tensor)) = 10000"
proof -
  let ?ls = "[10000, 10000] :: nat list"
  have p: "prod_list ?ls = 100000000"
    by simp
  have len: "length (entries example_tensor) = prod_list ?ls * 1"
    unfolding p by (simp add: example_tensor_def example_entries_def)
  have sh: "shape example_tensor = ?ls @ [1]"
    by (simp add: example_tensor_def)
  have en: "entries example_tensor = example_entries"
    by (simp add: example_tensor_def)
  have card: "?ls ! k = 10000" if "k < length ?ls" for k
    using that by (cases k) (simp_all add: less_Suc_eq)
  have rows: "nrows (spec_slice ?ls 1 k v example_entries) = 10000"
    if "k < length ?ls" "v < ?ls ! k" for k v
  proof -
    have "length (digit_examples ?ls k v) = prod_list ?ls div ?ls ! k"
      using that by (rule length_digit_examples)
    then show ?thesis
      unfolding p card [OF that(1)] by (simp add: spec_slice_def factor_examples_digit)
  qed
  have est: "\<forall>k < length ?ls. \<forall>v < ?ls ! k.
      estimate_latent_entropies log_density_gaussian [0..<10000]
        (spec_slice ?ls 1 k v (entries example_tensor))
        (spec_slice ?ls 1 k v (entries (fst (example_tensor, example_tensor))),
         spec_slice ?ls 1 k v (entries (snd (example_tensor, example_tensor)))) 10000
      = Inr (example_entropy k v)"
  proof (intro allI impI)
    fix k v assume k: "k < length ?ls" and v: "v < ?ls ! k"
    let ?m = "spec_slice ?ls 1 k v example_entries"
    have n: "nrows ?m = 10000" and c: "ncols ?m = 1"
      using rows [OF k v] by (simp_all add: spec_slice_def)
    have "estimate_at_once log_density_gaussian [0..<10000] ?m (?m, ?m) 10000
        = Inr (map (\<lambda>j. Fin (spec_entropy log_density_gaussian [0..<10000] ?m (?m, ?m) 10000 j))
            [0..<ncols ?m])"
    proof (rule estimate_at_once_spec)
      show "mset [0..<10000] = mset [0..<nrows ?m]"
        unfolding n ..
      show "0 < (10000 :: nat)"
        by simp
      show "10000 \<le> nrows ?m"
        unfolding n by simp
    qed (simp_all only: fst_conv snd_conv)
    then show "estimate_latent_entropies log_density_gaussian [0..<10000]
        (spec_slice ?ls 1 k v (entries example_tensor))
        (spec_slice ?ls 1 k v (entries (fst (example_tensor, example_tensor))),
         spec_slice ?ls 1 k v (entries (snd (example_tensor, example_tensor)))) 10000
      = Inr (example_entropy k v)"
      unfolding fst_conv snd_conv en estimate_latent_entropies_def example_entropy_def c
      by (simp only: estimate_batched_at_once zero_less_numeral)
  qed
  have "nrows (spec_slice ?ls 1 0 0 (entries example_tensor)) = 10000"
    unfolding en by (rule rows) simp_all
  then show ?thesis
    using estimate_H_zCv_spec [where lat_sizes = ?ls and lat_names = "[''shape'', ''scale'']"
        and latent_dim = 1 and samples_zCx = example_tensor
        and params_zCx = "(example_tensor, example_tensor)"
        and ld = log_density_gaussian and perms = "\<lambda>k v. [0..<10000]" and h = example_entropy,
        OF _ _ sh len _ _ _ _ est]
      sh len
    by (simp only: fst_conv snd_conv list.size, simp)
qed

subsection \<open>More pivots than examples\<close>

text \<open>
  \<open>randperm(len_dataset)[:n_samples]\<close> holds at most \<open>len_dataset\<close> indices, and the \<open>view\<close>
  of the rows it selects as \<open>(latent_dim, n_samples)\<close> needs \<open>n_samples\<close> of them: with
  fewer examples than pivots and at least one latent dimension the estimator raises.
\<close>

lemma estimate_fails_when_short:
  assumes "mset perm = mset [0..<nrows samples_zCx]"
    and "nrows samples_zCx < n_samples" and "0 < ncols samples_zCx"
  shows "estimate_latent_entropies_batched ld b perm samples_zCx params_zCX n_samples
       = Inl RuntimeError"
proof -
  have "set perm = set [0..<nrows samples_zCx]"
    using assms(1) by (rule mset_eq_setD)
  then have "\<forall>i \<in> set (take n_samples perm). i < nrows samples_zCx"
    by (auto dest: in_set_takeD)
  then have sel: "index_select samples_zCx (take n_samples perm)
      = Inr (of_rows (ncols samples_zCx) (map (row samples_zCx) (take n_samples perm)))"
    by (auto simp: index_select_def)
  have "length perm = nrows samples_zCx"
    using assms(1) by (metis length_upt minus_nat.diff_0 size_mset)
  then have "length (take n_samples perm) < n_samples"
    using assms(2) by simp
  then have "length (take n_samples perm) * ncols samples_zCx \<noteq> ncols samples_zCx * n_samples"
    using assms(3) by (simp add: mult.commute)
  then have "view (of_rows (ncols samples_zCx) (map (row samples_zCx) (take n_samples perm)))
      (ncols samples_zCx) n_samples = Inl RuntimeError"
    by (simp add: view_def)
  then show ?thesis
    unfolding estimate_latent_entropies_batched_def Let_def sel by simp
qed

text \<open>
  Claim C2 (the code fails where the claim promises a clamp). With two examples, one latent
  dimension and three pivots the estimator raises \<open>RuntimeError\<close>; and on a dataset of two
  factors with two values each, \<open>_estimate_H_zCv\<close>, which leaves \<open>n_samples\<close> at 10000, raises
  it on the first slice of two examples.
\<close>

theorem estimate_fails_on_small_dataset:
  "estimate_latent_entropies log_density_gaussian [1, 0]
      \<lparr>nrows = 2, ncols = 1, elems = [0, 1]\<rparr>
      (\<lparr>nrows = 2, ncols = 1, elems = [0, 1]\<rparr>, \<lparr>nrows = 2, ncols = 1, elems = [0, 0]\<rparr>) 3
     = Inl RuntimeError
   \<and> estimate_H_zCv log_density_gaussian (\<lambda>k v. [1, 0])
        \<lparr>shape = [2, 2, 1], entries = [0, 1, 2, 3]\<rparr>
        (\<lparr>shape = [2, 2, 1], entries = [0, 1, 2, 3]\<rparr>,
         \<lparr>shape = [2, 2, 1], entries = [0, 0, 0, 0]\<rparr>)
        [2, 2] [''shape'', ''scale'']
     = Inl RuntimeError"
proof -
  let ?T = "\<lparr>shape = [2, 2, 1], entries = [0, 1, 2, 3 :: real]\<rparr>"
  let ?Z = "\<lparr>shape = [2, 2, 1], entries = [0, 0, 0, 0 :: real]\<rparr>"
  let ?perms = "\<lambda>(k :: nat) (v :: nat). [1, 0 :: nat]"
  have u: "[0..<2] = [0, Suc 0]"
    by (simp add: upt_rec)
  have p: "mset [1, 0] = mset [0..<2]"
    unfolding u by simp
  have a: "estimate_latent_entropies ld [1, 0] \<lparr>nrows = 2, ncols = 1, elems = xs\<rparr> ps n
      = Inl RuntimeError" if "2 < n" for ld xs ps n
    unfolding estimate_latent_entropies_def
    using p that by (intro estimate_fails_when_short) simp_all
  have c1: "estimate_latent_entropies log_density_gaussian [1, 0]
      \<lparr>nrows = 2, ncols = 1, elems = [0, 1]\<rparr>
      (\<lparr>nrows = 2, ncols = 1, elems = [0, 1]\<rparr>, \<lparr>nrows = 2, ncols = 1, elems = [0, 0]\<rparr>) 3
     = Inl RuntimeError"
    by (rule a) simp
  have s: "factor_slice \<lparr>shape = [2, 2, 1], entries = [a, b, c, d]\<rparr> 2 0 0 2 1
      = Inr \<lparr>nrows = 2, ncols = 1, elems = [a, b]\<rparr>" for a b c d :: real
    by (simp add: factor_slice_def index_factor_def view_matrix_def)
  have d: "4 div 2 = (2 :: nat)"
    by simp
  have "estimate_latent_entropies log_density_gaussian [1, 0]
      \<lparr>nrows = 2, ncols = 1, elems = [0, 1]\<rparr>
      (\<lparr>nrows = 2, ncols = 1, elems = [0, 1]\<rparr>, \<lparr>nrows = 2, ncols = 1, elems = [0, 0]\<rparr>) 10000
     = Inl RuntimeError"
    by (rule a) simp
  then have sl: "slice_entropies log_density_gaussian ?perms ?T (?T, ?Z) 2 4 1 0 2 0
      = Inl RuntimeError"
    unfolding slice_entropies_def fst_conv snd_conv d s sum.case .
  have vl: "values_loop (slice_entropies log_density_gaussian ?perms ?T (?T, ?Z) 2 4 1 0 2) 2
      [0..<2] H = Inl RuntimeError" for H
    unfolding u values_loop.simps sl sum.case ..
  have q: "length [2, 2 :: nat] = 2" "prod_list [2, 2 :: nat] = 4" "last [2, 2, 1 :: nat] = 1"
    by simp_all
  have z: "zip [0..<2] (zip [2, 2 :: nat] [''shape'', ''scale''])
      = [(0, 2, ''shape''), (1, 2, ''scale'')]"
    unfolding u by simp
  have "estimate_H_zCv log_density_gaussian ?perms ?T (?T, ?Z) [2, 2] [''shape'', ''scale'']
      = factors_loop (slice_entropies log_density_gaussian ?perms ?T (?T, ?Z)
            (length [2, 2 :: nat]) (prod_list [2, 2]) (last [2, 2, 1]))
          (zip [0..<length [2, 2 :: nat]] (zip [2, 2] [''shape'', ''scale'']))
          (replicate (length [2, 2 :: nat]) (replicate (last [2, 2, 1]) (Fin 0)))"
    by (simp only: estimate_H_zCv_def Let_def tensor.select_convs list.distinct if_False)
  also have "\<dots> = factors_loop (slice_entropies log_density_gaussian ?perms ?T (?T, ?Z) 2 4 1)
          [(0, 2, ''shape''), (1, 2, ''scale'')] (replicate 2 (replicate 1 (Fin 0)))"
    unfolding q z ..
  also have "\<dots> = Inl RuntimeError"
    unfolding factors_loop.simps vl sum.case ..
  finally show ?thesis
    using c1 by simp
qed

subsection \<open>The paired-sample builder\<close>

lemma fill_columns_spec:
  assumes pos: "\<forall>i < length ls. 0 < ls ! i" and y: "y < length ls" and m: "m \<le> length ls"
  shows "fill_columns raw S (spec_draw raw (Suc c) (ls ! y) S) y (zip [m..<length ls] (drop m ls))
           (c + 2 + 2 * (if m \<le> y then m else m - 1))
       = Inr ((map (spec_column raw S ls c y 0) [m..<length ls],
               map (spec_column raw S ls c y 1) [m..<length ls]),
              c + 2 * length ls)"
  using m
proof (induction "length ls - m" arbitrary: m)
  case 0
  then have "m = length ls" by simp
  then show ?case using y by (simp add: algebra_simps)
next
  case (Suc x)
  then have m: "m < length ls" by simp
  have z: "zip [m..<length ls] (drop m ls) = (m, ls ! m) # zip [Suc m..<length ls] (drop (Suc m) ls)"
    using m by (simp add: upt_conv_Cons Cons_nth_drop_Suc [symmetric])
  have u: "[m..<length ls] = m # [Suc m..<length ls]"
    using m by (simp add: upt_conv_Cons)
  have IH: "fill_columns raw S (spec_draw raw (Suc c) (ls ! y) S) y
        (zip [Suc m..<length ls] (drop (Suc m) ls))
        (c + 2 + 2 * (if Suc m \<le> y then Suc m else Suc m - 1))
      = Inr ((map (spec_column raw S ls c y 0) [Suc m..<length ls],
              map (spec_column raw S ls c y 1) [Suc m..<length ls]),
             c + 2 * length ls)"
    using Suc.hyps(2) m by (intro Suc.hyps(1)) simp_all
  show ?case
  proof (cases "m = y")
    case True
    then have "c + 2 + 2 * (if Suc m \<le> y then Suc m else Suc m - 1)
        = c + 2 + 2 * (if m \<le> y then m else m - 1)"
      by simp
    then show ?thesis
      unfolding z unfolding u using IH True by (simp add: spec_column_def)
  next
    case False
    have p: "ls ! m \<noteq> 0"
      using pos m by auto
    have n: "c + 2 + 2 * (if m \<le> y then m else m - 1) = spec_draw_number c y m 0"
      using False by (auto simp: spec_draw_number_def)
    have n1: "Suc (spec_draw_number c y m 0) = spec_draw_number c y m 1"
      by (simp add: spec_draw_number_def)
    have n2: "Suc (spec_draw_number c y m 1) = c + 2 + 2 * (if Suc m \<le> y then Suc m else Suc m - 1)"
      using False by (auto simp: spec_draw_number_def)
    show ?thesis
      unfolding z unfolding u n using IH False p
      by (simp add: randint_def spec_column_def spec_draw_def n1 n2 del: One_nat_def)
  qed
qed

lemma spec_samples_columns:
  "spec_samples raw S ls c a
   = map (spec_column raw S ls c (spec_fixed_factor raw ls c) a) [0..<length ls]"
  by (simp add: spec_samples_def spec_column_def [abs_def] Let_def)

lemma spec_column_less:
  assumes "\<forall>i < length ls. 0 < ls ! i" and "y < length ls" and "i < length ls" and "s < S"
  shows "spec_column raw S ls c y a i ! s < ls ! i"
  using assms by (simp add: spec_column_def spec_draw_def)

lemma length_spec_column: "length (spec_column raw S ls c y a i) = S"
  by (simp add: spec_column_def spec_draw_def)

lemma rows_valid:
  assumes "\<forall>i < length ls. 0 < ls ! i" and "y < length ls"
    and "rw \<in> set (rows_of_columns S (map (spec_column raw S ls c y a) [0..<length ls]))"
  shows "list_all2 (<) rw ls"
proof -
  obtain s where s: "s < S"
    and rw: "rw = map (\<lambda>column. column ! s) (map (spec_column raw S ls c y a) [0..<length ls])"
    using assms(3) by (auto simp: rows_of_columns_def)
  show ?thesis
    unfolding rw using assms(1,2) s
    by (simp add: list_all2_conv_all_nth spec_column_less)
qed

lemma np_dot_rows_valid:
  assumes "ls \<noteq> []" and "\<forall>rw \<in> set rws. list_all2 (<) rw ls"
  shows "np_dot_rows rws (latents_bases ls) = Inr (map (\<lambda>rw. projr (latent_index ls rw)) rws)"
proof -
  have "\<forall>rw \<in> set rws. length rw = length (latents_bases ls)"
    using assms by (auto simp: length_latents_bases dest: list_all2_lengthD)
  moreover have "\<forall>rw \<in> set rws. projr (latent_index ls rw) = sum_list (map2 (*) rw (latents_bases ls))"
    using assms by (simp add: latent_index_enc enc_def latents_bases_suffix)
  ultimately show ?thesis
    by (simp add: np_dot_rows_def)
qed

lemma gather_valid:
  assumes "ls \<noteq> []" and "\<forall>rw \<in> set rws. list_all2 (<) rw ls"
    and "length imgs = prod_list ls"
  shows "gather imgs (map (\<lambda>rw. projr (latent_index ls rw)) rws)
       = Inr (map (\<lambda>rw. imgs ! projr (latent_index ls rw)) rws)"
proof -
  have "\<forall>rw \<in> set rws. projr (latent_index ls rw) < length imgs"
    using assms by (simp add: latent_index_enc enc_lt)
  then show ?thesis
    by (auto simp: gather_def comp_def)
qed

lemma images_from_data_gen_spec:
  assumes ne: "ls \<noteq> []" and pos: "\<forall>n \<in> set ls. 0 < n" and len: "length imgs = prod_list ls"
  shows "images_from_data_gen raw S ls imgs c
       = Inr ((spec_images ls imgs S (spec_samples raw S ls c 0),
               spec_images ls imgs S (spec_samples raw S ls c 1),
               spec_fixed_factor raw ls c), c + 2 * length ls)"
proof -
  let ?y = "spec_fixed_factor raw ls c"
  have K: "0 < length ls" using ne by simp
  then have y: "?y < length ls"
    by (simp add: spec_fixed_factor_def)
  have pos': "\<forall>i < length ls. 0 < ls ! i"
    using pos by simp
  have r1: "randint raw (length ls) 1 c = Inr ([?y], Suc c)"
    using K by (simp add: randint_def spec_fixed_factor_def)
  have r2: "randint raw (ls ! ?y) S (Suc c) = Inr (spec_draw raw (Suc c) (ls ! ?y) S, Suc (Suc c))"
    using pos' y by (simp add: randint_def spec_draw_def)
  have f: "fill_columns raw S (spec_draw raw (Suc c) (ls ! ?y) S) ?y (zip [0..<length ls] ls)
        (Suc (Suc c))
      = Inr ((spec_samples raw S ls c 0, spec_samples raw S ls c 1), c + 2 * length ls)"
    using fill_columns_spec [OF pos' y, of 0 raw S c] by (simp add: spec_samples_columns)
  have v: "\<forall>rw \<in> set (rows_of_columns S (spec_samples raw S ls c a)). list_all2 (<) rw ls" for a
    unfolding spec_samples_columns using rows_valid [OF pos' y] by blast
  show ?thesis
    unfolding images_from_data_gen_def r1 sum.case prod.case Let_def list.sel r2 f
      np_dot_rows_valid [OF ne v] gather_valid [OF ne v len] spec_images_def ..
qed

lemma z_diff_b_spec:
  assumes "\<forall>x \<in> set xs \<union> set ys. length (transform r x) = dim r"
  shows "z_diff_b r xs ys = spec_mean_abs_diff r xs ys"
proof -
  let ?t = "transform r"
  let ?z = "map2 (map2 (\<lambda>a b. \<bar>a - b\<bar>)) (map ?t xs) (map ?t ys)"
  have l: "length ?z = min (length xs) (length ys)"
    by simp
  have "map (\<lambda>row. row ! j) ?z = map2 (\<lambda>x y. \<bar>?t x ! j - ?t y ! j\<bar>) xs ys" if "j < dim r" for j
  proof -
    have "map (\<lambda>row. row ! j) ?z
        = map (\<lambda>(x, y). map2 (\<lambda>a b. \<bar>a - b\<bar>) (?t x) (?t y) ! j) (zip xs ys)"
      by (simp add: zip_map_map comp_def case_prod_unfold)
    also have "\<dots> = map (\<lambda>(x, y). \<bar>?t x ! j - ?t y ! j\<bar>) (zip xs ys)"
    proof (rule map_cong [OF refl])
      fix p assume "p \<in> set (zip xs ys)"
      then have "(fst p, snd p) \<in> set (zip xs ys)"
        by simp
      then have "fst p \<in> set xs" "snd p \<in> set ys"
        by (rule set_zip_leftD, rule set_zip_rightD)
      then have "j < length (?t (fst p))" "j < length (?t (snd p))"
        using assms that by auto
      then show "(case p of (x, y) \<Rightarrow> map2 (\<lambda>a b. \<bar>a - b\<bar>) (?t x) (?t y) ! j)
          = (case p of (x, y) \<Rightarrow> \<bar>?t x ! j - ?t y ! j\<bar>)"
        by (simp add: case_prod_unfold)
    qed
    finally show ?thesis .
  qed
  then have "map (\<lambda>j. fl_div (Fin (sum_list (map (\<lambda>row. row ! j) ?z))) (Fin (real (length ?z))))
        [0..<dim r]
      = map (\<lambda>j. fl_div (Fin (sum_list (map2 (\<lambda>x y. \<bar>?t x ! j - ?t y ! j\<bar>) xs ys)))
          (Fin (real (min (length xs) (length ys))))) [0..<dim r]"
    unfolding l by (intro map_cong [OF refl]) simp
  then show ?thesis
    unfolding z_diff_b_def spec_mean_abs_diff_def Let_def .
qed

lemma method_records_spec:
  assumes "\<forall>(name, r) \<in> set methods.
      (name = ''VAE'' \<or> name = ''PCA'' \<or> name = ''ICA'')
      \<and> (\<forall>x \<in> set xs \<union> set ys. length (transform r x) = dim r)"
  shows "method_records methods xs ys y
       = Inr (map (\<lambda>(name, r). (name, spec_mean_abs_diff r xs ys, y)) methods)"
  using assms
proof (induction methods)
  case Nil
  then show ?case by simp
next
  case (Cons a methods)
  obtain name r where a: "a = (name, r)" by (cases a)
  have n: "name = ''VAE'' \<or> name = ''PCA'' \<or> name = ''ICA''"
    and t: "\<forall>x \<in> set xs \<union> set ys. length (transform r x) = dim r"
    using Cons.prems unfolding a by auto
  have "method_records methods xs ys y
      = Inr (map (\<lambda>(name, r). (name, spec_mean_abs_diff r xs ys, y)) methods)"
    using Cons.prems by (intro Cons.IH) simp
  then show ?case
    unfolding a using n by (simp add: z_diff_b_spec [OF t])
qed

lemma spec_images_subset:
  assumes ne: "ls \<noteq> []" and pos: "\<forall>n \<in> set ls. 0 < n" and len: "length imgs = prod_list ls"
  shows "set (spec_images ls imgs S (spec_samples raw S ls c a)) \<subseteq> set imgs"
proof -
  have K: "0 < length ls" using ne by simp
  then have y: "spec_fixed_factor raw ls c < length ls"
    by (simp add: spec_fixed_factor_def)
  have pos': "\<forall>i < length ls. 0 < ls ! i"
    using pos by simp
  have "\<forall>rw \<in> set (rows_of_columns S (spec_samples raw S ls c a)). list_all2 (<) rw ls"
    unfolding spec_samples_columns using rows_valid [OF pos' y] by blast
  then have "\<forall>rw \<in> set (rows_of_columns S (spec_samples raw S ls c a)).
      projr (latent_index ls rw) < length imgs"
    using ne len by (simp add: latent_index_enc enc_lt)
  then show ?thesis
    by (auto simp: spec_images_def)
qed

lemma spec_draw_number_inj:
  assumes "i \<noteq> y" "i' \<noteq> y" "a < 2" "a' < 2"
    and "spec_draw_number c y i a = spec_draw_number c y i' a'"
  shows "i = i' \<and> a = a'"
proof -
  let ?r = "\<lambda>i. if i < y then i else i - 1"
  define p q where "p = ?r i" and "q = ?r i'"
  have "2 * p + a = 2 * q + a'"
    using assms(5) by (simp add: spec_draw_number_def p_def q_def)
  then have e: "p = q \<and> a = a'"
    using assms(3,4) by arith
  have "i = i'"
  proof (cases "i < y")
    case True
    then show ?thesis
      using e assms(1,2) unfolding p_def q_def by (cases "i' < y") auto
  next
    case False
    then show ?thesis
      using e assms(1,2) unfolding p_def q_def by (cases "i' < y") auto
  qed
  then show ?thesis using e by simp
qed

text \<open>
  Claim C8. For a dataset with at least one factor, positive cardinalities and one image
  per factor combination, and representations named \<open>VAE\<close>, \<open>PCA\<close> or \<open>ICA\<close>, one call of
  \<open>_compute_z_b_diff_y\<close> holds one factor \<open>y\<close> fixed, the single value of the first draw of
  the generator; the column \<open>y\<close> of both tables of factor values is the second draw, entry
  for entry; every other column of either table is a draw of its own (no two columns share
  a draw, and none shares the draws of \<open>y\<close> and its values); and the record of every
  representation is the per-dimension mean absolute difference of its outputs on the two
  sets of images, labelled with \<open>y\<close>. That a draw is uniform is a property of numpy's
  generator, which the model takes as given.
\<close>

theorem paired_sample_record:
  assumes "lat_sizes \<noteq> []" and "\<forall>n \<in> set lat_sizes. 0 < n"
    and "length imgs = prod_list lat_sizes"
    and "\<forall>(name, r) \<in> set methods.
          (name = ''VAE'' \<or> name = ''PCA'' \<or> name = ''ICA'')
          \<and> (\<forall>x \<in> set imgs. length (transform r x) = dim r)"
  shows "(let y = spec_fixed_factor raw lat_sizes c;
              samples1 = spec_samples raw sample_size lat_sizes c 0;
              samples2 = spec_samples raw sample_size lat_sizes c 1
          in compute_z_b_diff_y raw methods sample_size lat_sizes imgs c
               = Inr (map (\<lambda>(name, r).
                         (name,
                          spec_mean_abs_diff r
                            (spec_images lat_sizes imgs sample_size samples1)
                            (spec_images lat_sizes imgs sample_size samples2),
                          y)) methods,
                      c + 2 * length lat_sizes)
           \<and> y < length lat_sizes
           \<and> samples1 ! y = spec_draw raw (Suc c) (lat_sizes ! y) sample_size
           \<and> samples2 ! y = samples1 ! y
           \<and> (\<forall>i < length lat_sizes. i \<noteq> y \<longrightarrow>
                samples1 ! i = spec_draw raw (spec_draw_number c y i 0) (lat_sizes ! i) sample_size
              \<and> samples2 ! i = spec_draw raw (spec_draw_number c y i 1) (lat_sizes ! i) sample_size
              \<and> Suc c < spec_draw_number c y i 0
              \<and> (\<forall>i' < length lat_sizes. \<forall>a < 2. \<forall>a' < 2. i' \<noteq> y \<longrightarrow>
                    spec_draw_number c y i a = spec_draw_number c y i' a' \<longrightarrow> i = i' \<and> a = a')))"
proof -
  let ?y = "spec_fixed_factor raw lat_sizes c"
  let ?s1 = "spec_samples raw sample_size lat_sizes c 0"
  let ?s2 = "spec_samples raw sample_size lat_sizes c 1"
  let ?x1 = "spec_images lat_sizes imgs sample_size ?s1"
  let ?x2 = "spec_images lat_sizes imgs sample_size ?s2"
  have y: "?y < length lat_sizes"
    using assms(1) by (simp add: spec_fixed_factor_def)
  have "set ?x1 \<union> set ?x2 \<subseteq> set imgs"
    using spec_images_subset [OF assms(1-3)] by simp
  then have "\<forall>(name, r) \<in> set methods.
      (name = ''VAE'' \<or> name = ''PCA'' \<or> name = ''ICA'')
      \<and> (\<forall>x \<in> set ?x1 \<union> set ?x2. length (transform r x) = dim r)"
    using assms(4) by fastforce
  then have "method_records methods ?x1 ?x2 ?y
      = Inr (map (\<lambda>(name, r). (name, spec_mean_abs_diff r ?x1 ?x2, ?y)) methods)"
    by (rule method_records_spec)
  then have 1: "compute_z_b_diff_y raw methods sample_size lat_sizes imgs c
      = Inr (map (\<lambda>(name, r). (name, spec_mean_abs_diff r ?x1 ?x2, ?y)) methods,
             c + 2 * length lat_sizes)"
    unfolding compute_z_b_diff_y_def images_from_data_gen_spec [OF assms(1-3)] by simp
  have 2: "?s1 ! ?y = spec_draw raw (Suc c) (lat_sizes ! ?y) sample_size"
    and 3: "?s2 ! ?y = ?s1 ! ?y"
    using y by (simp_all add: spec_samples_columns spec_column_def)
  have 4: "?s1 ! i = spec_draw raw (spec_draw_number c ?y i 0) (lat_sizes ! i) sample_size"
    and 5: "?s2 ! i = spec_draw raw (spec_draw_number c ?y i 1) (lat_sizes ! i) sample_size"
    if "i < length lat_sizes" "i \<noteq> ?y" for i
    using that by (simp_all add: spec_samples_columns spec_column_def)
  have 6: "Suc c < spec_draw_number c ?y i 0" for i
    by (simp add: spec_draw_number_def)
  have 7: "i = i' \<and> a = a'"
    if "i \<noteq> ?y" "i' \<noteq> ?y" "a < 2" "a' < 2"
      "spec_draw_number c ?y i a = spec_draw_number c ?y i' a'" for i i' a a'
    using that by (rule spec_draw_number_inj)
  show ?thesis
    unfolding Let_def
  proof (intro conjI allI impI)
    show "compute_z_b_diff_y raw methods sample_size lat_sizes imgs c
      = Inr (map (\<lambda>(name, r). (name, spec_mean_abs_diff r ?x1 ?x2, ?y)) methods,
             c + 2 * length lat_sizes)"
      by (rule 1)
  qed (use y 2 3 4 5 6 in simp_all, use 7 in blast, use 7 in blast)
qed

theorem paired_sample_record_witness:
  "[2, 3] \<noteq> ([] :: nat list)
   \<and> length [0, 1, 2, 3, 4, 5 :: real] = prod_list [2, 3]
   \<and> spec_fixed_factor (\<lambda>n t. n + t) [2, 3] 0 = 0
   \<and> spec_samples (\<lambda>n t. n + t) 2 [2, 3] 0 0 = [[1, 0], [2, 0]]
   \<and> spec_samples (\<lambda>n t. n + t) 2 [2, 3] 0 1 = [[1, 0], [0, 1]]
   \<and> compute_z_b_diff_y (\<lambda>n t. n + t) [(''VAE'', \<lparr>dim = 1, transform = \<lambda>x. [x]\<rparr>)] 2 [2, 3]
         [0, 1, 2, 3, 4, 5] 0
       = Inr ([(''VAE'', [Fin (3 / 2)], 0)], 4)"
proof -
  let ?raw = "\<lambda>(n :: nat) (t :: nat). n + t"
  let ?imgs = "[0, 1, 2, 3, 4, 5] :: real list"
  let ?methods = "[(''VAE'', \<lparr>dim = 1, transform = \<lambda>x :: real. [x]\<rparr>)]"
  have u: "[0..<2] = [0, Suc 0]" "[0..<1] = [0]"
    by (simp_all add: upt_rec)
  have y: "spec_fixed_factor ?raw [2, 3] 0 = 0"
    by (simp add: spec_fixed_factor_def)
  have s1: "spec_samples ?raw 2 [2, 3] 0 0 = [[1, 0], [2, 0]]"
    and s2: "spec_samples ?raw 2 [2, 3] 0 1 = [[1, 0], [0, 1]]"
    by (simp_all add: spec_samples_def y spec_draw_def spec_draw_number_def u)
  have i: "latent_index [2, 3] [a, b] = Inr (a * 3 + b)" for a b
    by (simp add: latent_index_def latents_bases_def cumprod_def np_dot_def)
  have x1: "spec_images [2, 3] ?imgs 2 [[1, 0], [2, 0]] = [5, 0]"
    and x2: "spec_images [2, 3] ?imgs 2 [[1, 0], [0, 1]] = [3, 1]"
    by (simp_all add: spec_images_def rows_of_columns_def u i)
  have d: "spec_mean_abs_diff \<lparr>dim = 1, transform = \<lambda>x :: real. [x]\<rparr> [5, 0] [3, 1] = [Fin (3 / 2)]"
    by (simp add: spec_mean_abs_diff_def u)
  have "compute_z_b_diff_y ?raw ?methods 2 [2, 3] ?imgs 0
      = Inr (map (\<lambda>(name, r).
                (name,
                 spec_mean_abs_diff r
                   (spec_images [2, 3] ?imgs 2 (spec_samples ?raw 2 [2, 3] 0 0))
                   (spec_images [2, 3] ?imgs 2 (spec_samples ?raw 2 [2, 3] 0 1)),
                 spec_fixed_factor ?raw [2, 3] 0)) ?methods,
             0 + 2 * length [2, 3 :: nat])"
    using paired_sample_record [where lat_sizes = "[2, 3]" and imgs = ?imgs
        and methods = ?methods and raw = ?raw and sample_size = 2 and c = 0]
    by (simp add: Let_def)
  then have "compute_z_b_diff_y ?raw ?methods 2 [2, 3] ?imgs 0
      = Inr ([(''VAE'', [Fin (3 / 2)], 0)], 4)"
    unfolding s1 s2 x1 x2 y list.map prod.case d by simp
  then show ?thesis
    using y s1 s2 by simp
qed

subsection \<open>The baseline trainers\<close>

text \<open>
  The branch of \<open>ICA\<close> draws its indices below \<open>len(imgs_pca)\<close>, a variable of the branch of
  \<open>PCA\<close>: unbound when no \<open>PCA\<close> came before, and otherwise the 5000 rows of the subsample of
  \<open>PCA\<close>, not the dataset.
\<close>

lemma train_ica_alone:
  assumes "reshape_flat imgs = Inr rows0"
  shows "train_methods pca_fit ica_fit raw latent_dim imgs (''ICA'' # rest)
           (initial_trainer_state c) = Inl UnboundLocalError"
  using assms by (simp add: initial_trainer_state_def)

lemma train_vae_ica:
  assumes "reshape_flat imgs = Inr rows0"
  shows "train_methods pca_fit ica_fit raw latent_dim imgs (''VAE'' # ''ICA'' # rest)
           (initial_trainer_state c) = Inl UnboundLocalError"
  using assms by (simp add: initial_trainer_state_def)

lemma gather_replicate:
  assumes "i < length xs"
  shows "gather xs (map (\<lambda>t. i) [0..<n]) = Inr (map (\<lambda>t. xs ! i) [0..<n])"
  using assms by (auto simp: gather_def comp_def)

lemma gather_out_of_range:
  assumes "length xs \<le> i" and "0 < n"
  shows "gather xs (map (\<lambda>t. i) [0..<n]) = Inl IndexError"
proof -
  have "i \<in> set (map (\<lambda>t. i) [0..<n])"
    using assms(2) by auto
  then show ?thesis
    using assms(1) unfolding gather_def by (meson linorder_not_less)
qed

text \<open>
  Claim C9 (the code fails where the claim promises success). On a dataset of two images,
  with \<open>ICA\<close> requested alone or after \<open>VAE\<close> only, the trainer raises
  \<open>UnboundLocalError\<close>; with \<open>PCA\<close> trained first it draws the indices of the subsample of
  \<open>ICA\<close> below 5000, the size of the subsample of \<open>PCA\<close>, and a draw of 4999 raises
  \<open>IndexError\<close> on the two images.
\<close>

theorem ica_depends_on_pca:
  "train_methods pca_fit ica_fit raw latent_dim
       \<lparr>height = 1, width = 1, images = [[0], [1]]\<rparr> [''ICA''] (initial_trainer_state 0)
     = Inl UnboundLocalError
   \<and> train_methods pca_fit ica_fit raw latent_dim
       \<lparr>height = 1, width = 1, images = [[0], [1]]\<rparr> [''VAE'', ''ICA''] (initial_trainer_state 0)
     = Inl UnboundLocalError
   \<and> train_methods (\<lambda>n rows0. Inr pca) ica_fit (\<lambda>n t. if n = 0 then 0 else 4999) latent_dim
       \<lparr>height = 1, width = 1, images = [[0], [1]]\<rparr> [''PCA'', ''ICA''] (initial_trainer_state 0)
     = Inl IndexError"
proof -
  define imgs where "imgs = \<lparr>height = 1, width = 1, images = [[0], [1 :: real]]\<rparr>"
  define raw' where "raw' = (\<lambda>(n :: nat) (t :: nat). if n = 0 then 0 else 4999 :: nat)"
  define flat where "flat = [[0], [1 :: real]]"
  define sub where "sub = map (\<lambda>t. flat ! 0) [0..<5000]"
  have r: "reshape_flat imgs = Inr flat"
    by (simp add: reshape_flat_def imgs_def flat_def)
  have f: "length flat = 2"
    by (simp add: flat_def)
  have d0: "randint raw' (length flat) 5000 0 = Inr (map (\<lambda>t. 0) [0..<5000], Suc 0)"
    unfolding f by (simp add: randint_def raw'_def)
  have g0: "gather flat (map (\<lambda>t. 0) [0..<5000]) = Inr sub"
    unfolding sub_def by (rule gather_replicate) (simp add: f)
  have l: "length sub = 5000"
    by (simp add: sub_def)
  have d1: "randint raw' (length sub) 1000 (Suc 0) = Inr (map (\<lambda>t. 4999) [0..<1000], Suc (Suc 0))"
    unfolding l by (simp add: randint_def raw'_def)
  have g1: "gather flat (map (\<lambda>t. 4999) [0..<1000]) = Inl IndexError"
    by (rule gather_out_of_range) (simp_all add: f)
  have n: "''PCA'' \<noteq> ''VAE''" "''ICA'' \<noteq> ''VAE''" "''ICA'' \<noteq> ''PCA''"
    by simp_all
  have "train_methods (\<lambda>n rows0. Inr pca) ica_fit raw' latent_dim imgs [''PCA'', ''ICA'']
        (initial_trainer_state 0)
      = train_methods (\<lambda>n rows0. Inr pca) ica_fit raw' latent_dim imgs [''ICA'']
        \<lparr>method_dict = [(''PCA'', Fitted pca)], imgs_pca = Some sub, generator = Suc 0\<rparr>"
    unfolding initial_trainer_state_def
    by (subst train_methods.simps)
      (simp only: n if_False if_True refl r sum.case trainer_state.select_convs d0 prod.case g0
        trainer_state.update_convs dict_set.simps)
  also have "\<dots> = Inl IndexError"
    by (subst train_methods.simps)
      (simp only: n if_False if_True refl r sum.case trainer_state.select_convs option.case
        d1 prod.case g1)
  finally have c: "train_methods (\<lambda>n rows0. Inr pca) ica_fit raw' latent_dim imgs
      [''PCA'', ''ICA''] (initial_trainer_state 0) = Inl IndexError" .
  show ?thesis
  proof (intro conjI)
    show "train_methods pca_fit ica_fit raw latent_dim
        \<lparr>height = 1, width = 1, images = [[0], [1]]\<rparr> [''ICA''] (initial_trainer_state 0)
      = Inl UnboundLocalError"
      by (rule train_ica_alone [OF r, unfolded imgs_def])
    show "train_methods pca_fit ica_fit raw latent_dim
        \<lparr>height = 1, width = 1, images = [[0], [1]]\<rparr> [''VAE'', ''ICA'']
        (initial_trainer_state 0)
      = Inl UnboundLocalError"
      by (rule train_vae_ica [OF r, unfolded imgs_def])
    show "train_methods (\<lambda>n rows0. Inr pca) ica_fit (\<lambda>n t. if n = 0 then 0 else 4999)
        latent_dim \<lparr>height = 1, width = 1, images = [[0], [1]]\<rparr> [''PCA'', ''ICA'']
        (initial_trainer_state 0)
      = Inl IndexError"
      by (rule c [unfolded imgs_def raw'_def])
  qed
qed


subsection \<open>The evaluator\<close>

lemma load_non_linear_accuracies:
  "load_name compute_metrics_locals ''non_linear_accuracies'' = Inl NameError"
  by (simp add: load_name_def compute_metrics_locals_def module_names_def)

lemma uses_model_fields:
  "model_training (uses_model st) = model_training st"
  "saved (uses_model st) = saved st"
  "mode_log (uses_model st) = mode_log st @ [model_training st]"
  by (simp_all add: uses_model_def)

lemma same_mode_refl: "same_mode st st"
  unfolding same_mode_def by (auto intro: exI [of _ 0])

lemma same_mode_uses: "same_mode st st' \<Longrightarrow> same_mode st (uses_model st')"
  unfolding same_mode_def
proof (elim conjE exE, intro conjI)
  fix k
  assume a: "model_training st' = model_training st"
    "mode_log st' = mode_log st @ replicate k (model_training st)"
  show "model_training (uses_model st') = model_training st" using a by (simp add: uses_model_fields)
  have "mode_log (uses_model st') = mode_log st @ replicate (Suc k) (model_training st)"
    using a by (simp add: uses_model_fields replicate_append_same)
  then show "\<exists>k. mode_log (uses_model st') = mode_log st @ replicate k (model_training st)" ..
qed

lemma same_mode_saved:
  "same_mode st st' \<Longrightarrow> same_mode st (st'\<lparr>saved := f\<rparr>)"
  unfolding same_mode_def by simp

lemma saved_uses_twice: "saved (uses_model (uses_model st)) = saved st"
  by (simp add: uses_model_fields)

lemma compute_metrics_raises:
  "\<exists>e st'. compute_metrics cs use_wandb dataloader st = (Inl e, st') \<and> same_mode st st'
      \<and> saved st' = saved st"
  unfolding compute_metrics_def Let_def load_non_linear_accuracies
  by (auto split: option.splits sum.splits prod.splits
        simp: uses_model_fields intro: same_mode_refl same_mode_uses)

lemma first_batch_same_mode:
  "same_mode st (snd (first_batch_losses cs data st))"
  unfolding first_batch_losses_def Let_def
  by (auto split: sum.splits prod.splits intro: same_mode_refl same_mode_uses)

lemma compute_losses_same_mode:
  "same_mode st (snd (compute_losses cs dataloader st))"
proof (cases "batch_list dataloader")
  case Nil
  then show ?thesis by (simp add: compute_losses_def same_mode_refl)
next
  case (Cons data rest)
  obtain r st' where f: "first_batch_losses cs data st = (r, st')" by (cases "first_batch_losses cs data st")
  have "same_mode st st'" using first_batch_same_mode [of st cs data] f by simp
  then show ?thesis using Cons f by (cases r) (simp_all add: compute_losses_def)
qed

lemma call_without_metrics:
  "\<exists>st'. same_mode (st\<lparr>model_training := False\<rparr>) st'
     \<and> ((\<exists>e. call cs use_wandb data_loader False is_losses st = (Inl e, st'))
        \<or> (\<exists>r. call cs use_wandb data_loader False is_losses st
              = (Inr r, if model_training st then st'\<lparr>model_training := True\<rparr> else st')))"
proof (cases is_losses)
  case False
  then show ?thesis
    unfolding call_def Let_def
    by (intro exI [of _ "st\<lparr>model_training := False\<rparr>"]) (simp add: same_mode_refl)
next
  case True
  define st1 where "st1 = st\<lparr>model_training := False\<rparr>"
  obtain r st2 where c: "compute_losses cs data_loader st1 = (r, st2)"
    by (cases "compute_losses cs data_loader st1")
  have m: "same_mode st1 st2" using compute_losses_same_mode [of st1 cs data_loader] c by simp
  show ?thesis
  proof (cases r)
    case (Inl e)
    then show ?thesis using True c m
      unfolding call_def Let_def st1_def [symmetric]
      by (intro exI [of _ st2]) simp
  next
    case (Inr losses)
    then show ?thesis using True c same_mode_saved [OF m]
      unfolding call_def Let_def st1_def [symmetric]
      by (intro exI [of _ "st2\<lparr>saved := (saved st2)(TEST_LOSSES_FILE \<mapsto> Losses_file losses)\<rparr>"])
         simp
  qed
qed

lemma call_with_metrics:
  "\<exists>e st'. call cs use_wandb data_loader True is_losses st = (Inl e, st')
      \<and> same_mode (st\<lparr>model_training := False\<rparr>) st'"
proof -
  define st1 where "st1 = st\<lparr>model_training := False\<rparr>"
  obtain e st' where c: "compute_metrics cs use_wandb data_loader st1 = (Inl e, st')"
    and m: "same_mode st1 st'"
    using compute_metrics_raises [of cs use_wandb data_loader st1] by blast
  show ?thesis using c m unfolding call_def Let_def st1_def [symmetric] by simp
qed

lemma modes_of_same_mode:
  assumes "same_mode (st\<lparr>model_training := False\<rparr>) st'"
  shows "set (modes_during st st') \<subseteq> {False}"
    and "set (modes_during st (st'\<lparr>model_training := b\<rparr>)) \<subseteq> {False}"
  using assms unfolding same_mode_def modes_during_def by auto

text \<open>
  Claim C10. Every flag that a computation of \<open>__call__\<close> sees is the evaluation mode,
  whether the call returns or raises. When the call returns, the flag of the model is what
  it was on entry; and a call that returns is one without metrics, since \<open>compute_metrics\<close>
  always raises.
\<close>

theorem evaluation_mode_restored:
  "set (modes_during st (snd (call cs use_wandb data_loader is_metrics is_losses st))) \<subseteq> {False}
   \<and> (fst (call cs use_wandb data_loader is_metrics is_losses st) = Inr r \<longrightarrow>
        model_training (snd (call cs use_wandb data_loader is_metrics is_losses st))
          = model_training st
        \<and> \<not> is_metrics)"
proof (cases is_metrics)
  case True
  obtain e st' where c: "call cs use_wandb data_loader True is_losses st = (Inl e, st')"
    and m: "same_mode (st\<lparr>model_training := False\<rparr>) st'"
    using call_with_metrics [of cs use_wandb data_loader is_losses st] by blast
  show ?thesis using True c modes_of_same_mode(1) [OF m] by simp
next
  case False
  obtain st' where m: "same_mode (st\<lparr>model_training := False\<rparr>) st'"
    and d: "(\<exists>e. call cs use_wandb data_loader False is_losses st = (Inl e, st'))
        \<or> (\<exists>r. call cs use_wandb data_loader False is_losses st
              = (Inr r, if model_training st then st'\<lparr>model_training := True\<rparr> else st'))"
    using call_without_metrics [of st cs use_wandb data_loader is_losses] by blast
  have t: "model_training st' = False" using m by (simp add: same_mode_def)
  from d show ?thesis
  proof
    assume "\<exists>e. call cs use_wandb data_loader False is_losses st = (Inl e, st')"
    then show ?thesis using False modes_of_same_mode(1) [OF m] by auto
  next
    assume "\<exists>r. call cs use_wandb data_loader False is_losses st
              = (Inr r, if model_training st then st'\<lparr>model_training := True\<rparr> else st')"
    then obtain r' where c: "call cs use_wandb data_loader False is_losses st
              = (Inr r', if model_training st then st'\<lparr>model_training := True\<rparr> else st')" ..
    show ?thesis
    proof (cases "model_training st")
      case True
      then show ?thesis using False c modes_of_same_mode(2) [OF m, of True] by simp
    next
      case nt: False
      then show ?thesis using False c t modes_of_same_mode(1) [OF m] by simp
    qed
  qed
qed

lemma sorted_mut_info_returns:
  assumes "length H_z = ncols H_zCv"
  shows "\<exists>sm. sorted_mut_info H_z H_zCv = Inr sm \<and> ncols sm = ncols H_zCv
           \<and> nrows sm = nrows H_zCv"
  using assms
  by (simp add: sorted_mut_info_def mut_info_def sort_descending_def clamp_min_def of_rows_def
        rows_def)

lemma mutual_information_gap_returns:
  assumes "1 < ncols sm" and "length lat_sizes = nrows sm"
  shows "\<exists>mig h. mutual_information_gap sm lat_sizes (Some s) = Inr (mig, Some h)"
  using assms by (simp add: mutual_information_gap_def col_def broadcast2_def Let_def)

lemma axis_aligned_metric_returns:
  assumes "0 < ncols sm"
  shows "\<exists>aam h. axis_aligned_metric sm (Some s) = Inr (aam, Some h)"
  using assms by (simp add: axis_aligned_metric_def col_def Let_def)

lemma compute_metrics_reaches_line_179:
  assumes "ds_lat_sizes (ds dataloader) = Some lat_sizes"
    and "ds_lat_names (ds dataloader) = Some lat_names"
    and "ds_imgs (ds dataloader) = Some lat_imgs"
    and "disentanglement_metric cs (model_training st) lat_sizes lat_imgs = Inr accuracies"
    and "wandb_log use_wandb accuracies = Inr ()"
    and "compute_q_zCx cs (model_training st) dataloader = Inr (samples_zCx, params_zCx)"
    and "latent_entropies cs samples_zCx params_zCx = Inr H_z"
    and "cond_entropies cs samples_zCx params_zCx lat_sizes lat_names = Inr H_zCv"
    and "length H_z = ncols H_zCv" and "1 < ncols H_zCv" and "length lat_sizes = nrows H_zCv"
  shows "compute_metrics cs use_wandb dataloader st = (Inl NameError, uses_model (uses_model st))"
proof -
  define helpers where "helpers =
     [''marginal_entropies'' \<mapsto> Entropies H_z, ''cond_entropies'' \<mapsto> Entropy_table H_zCv]"
  obtain sm where sm: "sorted_mut_info H_z H_zCv = Inr sm" "ncols sm = ncols H_zCv"
      "nrows sm = nrows H_zCv"
    using sorted_mut_info_returns [OF assms(9)] by blast
  obtain mig h1 where mig: "mutual_information_gap sm lat_sizes (Some helpers) = Inr (mig, Some h1)"
    using mutual_information_gap_returns [of sm lat_sizes helpers] assms(10,11) sm by auto
  obtain aam h2 where aam: "axis_aligned_metric sm (Some h1) = Inr (aam, Some h2)"
    using axis_aligned_metric_returns [of sm h1] assms(10) sm by auto
  show ?thesis
    unfolding compute_metrics_def Let_def
    using assms(1-8) sm(1) mig aam
    by (simp add: uses_model_fields helpers_def [symmetric] load_non_linear_accuracies)
qed

text \<open>
  Claim C1. For every data loader, every behaviour of the collaborators and every state,
  \<open>compute_metrics\<close> raises: it returns no metrics record, and the files under \<open>save_dir\<close>
  are what they were, so that the metric-helpers artifact is not written. Where the dataset
  has the three attributes and every step before line 179 succeeds, as for the example
  evaluator, the exception is the \<open>NameError\<close> of \<open>non_linear_accuracies\<close> on line 179, one
  line before \<open>torch.save\<close>.
\<close>

theorem compute_metrics_never_returns:
  "(\<exists>e. fst (compute_metrics cs use_wandb dataloader st) = Inl e)
   \<and> saved (snd (compute_metrics cs use_wandb dataloader st)) = saved st
   \<and> fst (compute_metrics example_collaborators False example_loader st) = Inl NameError"
proof (intro conjI)
  obtain e st' where c: "compute_metrics cs use_wandb dataloader st = (Inl e, st')"
    and s: "saved st' = saved st"
    using compute_metrics_raises [of cs use_wandb dataloader st] by blast
  show "\<exists>e. fst (compute_metrics cs use_wandb dataloader st) = Inl e" using c by simp
  show "saved (snd (compute_metrics cs use_wandb dataloader st)) = saved st" using c s by simp
  show "fst (compute_metrics example_collaborators False example_loader st) = Inl NameError"
    by (subst compute_metrics_reaches_line_179
          [where lat_sizes = "[2]" and H_z = "[1, 1]"
             and H_zCv = "\<lparr>nrows = 1, ncols = 2, elems = [0, 1]\<rparr>"])
       (simp_all add: example_collaborators_def example_loader_def wandb_log_def)
qed

text \<open>
  A call on a model in training mode, for the losses only: it returns the averaged loss of
  the first batch, the two computations have seen the evaluation mode, and the model is back
  in training mode.
\<close>

theorem evaluation_mode_restored_witness:
  "fst (call example_collaborators False example_loader False True (example_state True))
     = Inr (None, Some [(''loss'', 2)])
   \<and> model_training
       (snd (call example_collaborators False example_loader False True (example_state True)))
   \<and> modes_during (example_state True)
       (snd (call example_collaborators False example_loader False True (example_state True)))
     = [False, False]"
  using evaluation_mode_restored
    [of "example_state True" example_collaborators False example_loader False True
        "(None, Some [(''loss'', 2)])"]
  by (simp add: call_def compute_losses_def first_batch_losses_def example_collaborators_def
        example_loader_def example_state_def uses_model_def average_losses_def modes_during_def
        Let_def)

end
